theory Spec2Isabelle
  imports Main "HOL-Library.AList"
begin

section \<open>Data model of \<^verbatim>\<open>autoagent/util.py\<close>: annotations, schema nodes, errors\<close>

text \<open>
  The schema nodes built by \<^verbatim>\<open>get_type_info\<close> and \<^verbatim>\<open>function_to_json\<close> are Python
  dicts, lists, strings and booleans. A dict keeps its insertion order, so an object is an
  association list in that order; \<open>AList.update\<close> is Python's \<^verbatim>\<open>d[k] = v\<close> (an existing
  key keeps its place, a new key goes to the end) and \<open>map_of\<close> is the look-up.
\<close>

datatype json =
    JNull
  | JBool bool
  | JInt int
  | JString string
  | JArray "json list"
  | JObject "(string \<times> json) list"

text \<open>
  Exceptions are modelled by their cause, not by their message text:
  \<^item> \<open>DictKeysError\<close> is \<^verbatim>\<open>ValueError("Dictionary keys must be strings")\<close> (line 221);
  \<^item> \<open>UnpackError\<close> is the \<^verbatim>\<open>ValueError\<close> of \<^verbatim>\<open>key_type, value_type = args\<close> (line 219)
    when \<^verbatim>\<open>args\<close> does not have two elements;
  \<^item> \<open>IndexError\<close> is raised by \<^verbatim>\<open>args[0]\<close> (line 211) on an empty tuple;
  \<^item> \<open>KeyError\<close> is the only class the handler of \<^verbatim>\<open>function_to_json\<close> catches (line 393);
  \<^item> \<open>SignatureError\<close> is the \<^verbatim>\<open>ValueError\<close> re-raised when \<^verbatim>\<open>inspect.signature\<close> fails
    (line 372);
  \<^item> \<open>TypeError\<close> is the class that the handler of line 276 catches: raised by
    \<^verbatim>\<open>"$ref" in prop_schema\<close> or \<^verbatim>\<open>prop_schema["$ref"]\<close> on a property schema that is no
    dict, or by \<^verbatim>\<open>model_json_schema()\<close>;
  \<^item> \<open>AttributeError\<close> is raised by \<^verbatim>\<open>.split("/")\<close> (line 266) on a \<^verbatim>\<open>$ref\<close> that is no string;
  \<^item> \<open>OtherError\<close> is any other exception that \<^verbatim>\<open>model_json_schema()\<close> may raise.
\<close>

datatype py_error =
    DictKeysError
  | UnpackError
  | IndexError
  | KeyError
  | SignatureError
  | TypeError
  | AttributeError
  | OtherError

text \<open>
  Default values. \<open>MISSING\<close> is \<^verbatim>\<open>dataclasses.MISSING\<close>, \<open>EMPTY\<close> is \<^verbatim>\<open>inspect._empty\<close>;
  the other constructors are ordinary values a default can be.
\<close>

datatype pyobj =
    MISSING
  | EMPTY
  | PyNone
  | PyInt int
  | PyStr string
  | PyBool bool
  | PyCallable string

text \<open>
  Built-in classes that can be keys of \<^verbatim>\<open>base_type_map\<close>: \<^verbatim>\<open>str\<close>, \<^verbatim>\<open>int\<close>, \<^verbatim>\<open>float\<close>,
  \<^verbatim>\<open>bool\<close>, \<^verbatim>\<open>type(None)\<close>, and \<^verbatim>\<open>list\<close> and \<^verbatim>\<open>dict\<close>, the two entries the source has
  commented out of \<^verbatim>\<open>type_map\<close> (lines 350-351).
\<close>

datatype builtin = TStr | TInt | TFloat | TBool | TNoneType | TList | TDict

text \<open>
  \<^verbatim>\<open>typing.get_origin(annotation)\<close> when it is not \<^verbatim>\<open>None\<close>: \<^verbatim>\<open>list\<close>, \<^verbatim>\<open>dict\<close>,
  \<^verbatim>\<open>typing.Union\<close>, or anything else (\<^verbatim>\<open>tuple\<close>, \<^verbatim>\<open>Literal\<close>, \<^verbatim>\<open>collections.abc.Mapping\<close>,
  \<^verbatim>\<open>types.UnionType\<close> ...).
\<close>

datatype origin = OList | ODict | OUnion | OOther

text \<open>
  One \<^verbatim>\<open>dataclasses.Field\<close>: the four attributes the function reads.
\<close>

datatype 'a field =
  Field (fname: string) (ftype: 'a) (fdefault: pyobj) (fdefault_factory: pyobj)

text \<open>
  The outcome of \<^verbatim>\<open>annotation.model_json_schema()\<close> (line 255): the exception it raises, or
  the exported schema, of which the function reads three members. \<open>Schema properties
  required definitions\<close> holds \<^verbatim>\<open>schema.get("properties", {})\<close>, \<^verbatim>\<open>schema.get("required", [])\<close>
  and \<^verbatim>\<open>schema.get("$defs", {})\<close>; a property schema is any JSON value. Every call of the
  export hands out a new structure.
\<close>

datatype export =
    Schema "(string \<times> json) list" "string list" "(string \<times> json) list"
  | Raises py_error

text \<open>
  An annotation, as far as \<^verbatim>\<open>get_type_info\<close> observes it. Annotations are hashable objects
  (on an unhashable one the test of line 201 raises \<^verbatim>\<open>TypeError\<close>; such objects are outside
  the model). The tests of the function are made in this order, and each constructor stands
  for the objects that first answer to it:
  \<^item> \<open>Builtin b\<close>: a built-in class (\<^verbatim>\<open>get_origin\<close> is \<^verbatim>\<open>None\<close>, it is no \<^verbatim>\<open>BaseModel\<close>,
    no dataclass and has no \<^verbatim>\<open>__annotations__\<close>);
  \<^item> \<open>Generic origin args\<close>: \<^verbatim>\<open>get_origin\<close> is not \<^verbatim>\<open>None\<close>, \<^verbatim>\<open>args = get_args(annotation)\<close>,
    and the alias has no \<^verbatim>\<open>__annotations__\<close>. \<^verbatim>\<open>typing.List\<close> written without a subscript is
    \<open>Generic OList []\<close> and \<^verbatim>\<open>typing.Dict\<close> is \<open>Generic ODict []\<close>; \<^verbatim>\<open>dict[str]\<close> is
    \<open>Generic ODict [Builtin TStr]\<close>. No alias with origin \<^verbatim>\<open>list\<close>, \<^verbatim>\<open>dict\<close> or \<^verbatim>\<open>Union\<close> has
    \<^verbatim>\<open>__annotations__\<close>. With \<open>OOther\<close> this is an alias of \<^verbatim>\<open>typing\<close> (\<^verbatim>\<open>Tuple[int]\<close>,
    \<^verbatim>\<open>typing.Mapping[int, str]\<close>, \<^verbatim>\<open>Literal["a"]\<close>), an alias of a built-in class
    (\<^verbatim>\<open>tuple[int, str]\<close>) or \<^verbatim>\<open>int | None\<close>: none of them is a class or a dataclass;
  \<^item> \<open>PydanticModel export annotations\<close>: a subclass of \<^verbatim>\<open>BaseModel\<close>, with the outcome of
    its schema export and the items of its \<^verbatim>\<open>__annotations__\<close>, which the function comes to
    when line 276 has caught a \<^verbatim>\<open>TypeError\<close>. A pydantic model is no dataclass and has no
    \<^verbatim>\<open>__required_keys__\<close>;
  \<^item> \<open>Dataclass fields\<close>: \<^verbatim>\<open>is_dataclass(annotation)\<close> holds, \<^verbatim>\<open>fields(annotation)\<close>;
  \<^item> \<open>AnnotatedClass annotations required_keys\<close>: a \<^verbatim>\<open>TypedDict\<close>, with the items of
    \<^verbatim>\<open>__annotations__\<close> and \<^verbatim>\<open>__required_keys__\<close> when the object has that attribute (listed
    in the iteration order of the frozenset);
  \<^item> \<open>AnnotatedObject annotations required_keys\<close>: any other object that has
    \<^verbatim>\<open>__annotations__\<close> and is no record type: a class that is none of the above (from
    Python 3.10 on every class defined in Python has the attribute, an empty dict when
    nothing is annotated), so an \<^verbatim>\<open>Enum\<close>, \<^verbatim>\<open>typing.Any\<close> (a class from Python 3.11 on),
    \<^verbatim>\<open>inspect._empty\<close> (the annotation of a parameter that has none), or an alias that hands
    on the attributes of such a class (\<^verbatim>\<open>collections.abc.Sequence[int]\<close>,
    \<^verbatim>\<open>collections.abc.Mapping[int, str]\<close>);
  \<^item> \<open>Other\<close>: any other object (a string annotation, a \<^verbatim>\<open>TypeVar\<close>, \<^verbatim>\<open>...\<close>): every test
    of the function fails on it.
\<close>

datatype annotation =
    Builtin builtin
  | Generic origin "annotation list"
  | PydanticModel export "(string \<times> annotation) list"
  | Dataclass "annotation field list"
  | AnnotatedClass "(string \<times> annotation) list" "string list option"
  | AnnotatedObject "(string \<times> annotation) list" "string list option"
  | Other

text \<open>
  \<^verbatim>\<open>hasattr(value_type, "__annotations__")\<close> and
  \<^verbatim>\<open>isinstance(value_type, type) and issubclass(value_type, BaseModel)\<close> (lines 224-225).
  A pydantic model and a dataclass carry \<^verbatim>\<open>__annotations__\<close> as well.
\<close>

fun has_annotations :: "annotation \<Rightarrow> bool" where
  "has_annotations (PydanticModel _ _) = True"
| "has_annotations (Dataclass _) = True"
| "has_annotations (AnnotatedClass _ _) = True"
| "has_annotations (AnnotatedObject _ _) = True"
| "has_annotations _ = False"

fun is_basemodel :: "annotation \<Rightarrow> bool" where
  "is_basemodel (PydanticModel _ _) = True"
| "is_basemodel _ = False"

section \<open>Helpers of the loops\<close>

text \<open>
  A list comprehension, or a loop body, whose element computations may raise: the first
  exception in order ends it.
\<close>

fun collect :: "('e + 'a) list \<Rightarrow> 'e + 'a list" where
  "collect [] = Inr []"
| "collect (Inl e # _) = Inl e"
| "collect (Inr x # rs) = (case collect rs of Inl e \<Rightarrow> Inl e | Inr xs \<Rightarrow> Inr (x # xs))"

text \<open>\<^verbatim>\<open>s.split(c)\<close> for a separator of one character; the result is never empty.\<close>

fun split_on :: "char \<Rightarrow> string \<Rightarrow> string list" where
  "split_on c [] = [[]]"
| "split_on c (x # xs) =
     (if x = c then [] # split_on c xs
      else (case split_on c xs of [] \<Rightarrow> [[x]] | w # ws \<Rightarrow> (x # w) # ws))"

text \<open>\<^verbatim>\<open>sub in s\<close> on strings: \<open>sub\<close> occurs in \<open>s\<close>.\<close>

fun starts_with :: "string \<Rightarrow> string \<Rightarrow> bool" where
  "starts_with [] s = True"
| "starts_with (p # ps) [] = False"
| "starts_with (p # ps) (c # cs) = (p = c \<and> starts_with ps cs)"

fun contains_str :: "string \<Rightarrow> string \<Rightarrow> bool" where
  "contains_str sub [] = (sub = [])"
| "contains_str sub (c # cs) = (starts_with sub (c # cs) \<or> contains_str sub cs)"

text \<open>
  Lines 265-266 on one property schema: \<^verbatim>\<open>"$ref" in prop_schema\<close>, then
  \<^verbatim>\<open>prop_schema["$ref"].split("/")\<close>. The result is \<open>Inr None\<close> when the test is false,
  \<open>Inr (Some r)\<close> with the reference string when the schema is a dict with a string under
  the key, and the exception otherwise: a string or a list that holds \<^verbatim>\<open>"$ref"\<close> cannot be
  indexed by it, \<^verbatim>\<open>in\<close> is not defined on \<^verbatim>\<open>None\<close>, a boolean or a number, and only a string
  has \<^verbatim>\<open>split\<close>.
\<close>

fun ref_of :: "json \<Rightarrow> py_error + string option" where
  "ref_of (JObject kvs) =
     (case map_of kvs ''$ref'' of
        None \<Rightarrow> Inr None
      | Some (JString r) \<Rightarrow> Inr (Some r)
      | Some _ \<Rightarrow> Inl AttributeError)"
| "ref_of (JString s) = (if contains_str ''$ref'' s then Inl TypeError else Inr None)"
| "ref_of (JArray xs) = (if JString ''$ref'' \<in> set xs then Inl TypeError else Inr None)"
| "ref_of _ = Inl TypeError"

text \<open>
  Lines 264-268: the loop over \<^verbatim>\<open>properties.items()\<close>, threading the dict \<^verbatim>\<open>properties\<close>
  that it assigns to. The second argument is what is left of the items. An exception ends
  the loop.
\<close>

fun expand_refs ::
  "(string \<times> json) list \<Rightarrow> (string \<times> json) list \<Rightarrow> (string \<times> json) list
     \<Rightarrow> py_error + (string \<times> json) list"
where
  "expand_refs definitions [] properties = Inr properties"
| "expand_refs definitions ((prop_name, prop_schema) # rest) properties =
     (case ref_of prop_schema of
        Inl e \<Rightarrow> Inl e
      | Inr None \<Rightarrow> expand_refs definitions rest properties
      | Inr (Some r) \<Rightarrow>
          (let ref_name = last (split_on CHR ''/'' r) in
           case map_of definitions ref_name of
             None \<Rightarrow> expand_refs definitions rest properties
           | Some body \<Rightarrow> expand_refs definitions rest (AList.update prop_name body properties)))"

text \<open>
  Lines 293-298: the loop over \<^verbatim>\<open>fields(annotation)\<close>, each field paired with its resolved
  type, threading \<^verbatim>\<open>properties\<close> and \<^verbatim>\<open>required\<close>. The chained comparison
  \<^verbatim>\<open>field.default == field.default_factory == MISSING\<close> is the conjunction of its two links.
\<close>

fun dataclass_loop ::
  "('a field \<times> 'v) list \<Rightarrow> (string \<times> 'v) list \<Rightarrow> string list
     \<Rightarrow> (string \<times> 'v) list \<times> string list"
where
  "dataclass_loop [] properties required = (properties, required)"
| "dataclass_loop ((f, t) # rest) properties required =
     dataclass_loop rest (AList.update (fname f) t properties)
       (if fdefault f = fdefault_factory f \<and> fdefault_factory f = MISSING
        then required @ [fname f] else required)"

text \<open>Lines 319-320: the loop over \<^verbatim>\<open>annotation.__annotations__.items()\<close>.\<close>

fun annotations_loop :: "(string \<times> 'v) list \<Rightarrow> (string \<times> 'v) list \<Rightarrow> (string \<times> 'v) list" where
  "annotations_loop [] properties = properties"
| "annotations_loop ((key, t) # rest) properties =
     annotations_loop rest (AList.update key t properties)"

definition string_node :: json where
  "string_node = JObject [(''type'', JString ''string'')]"

definition object_node :: "(string \<times> json) list \<Rightarrow> string list \<Rightarrow> json" where
  "object_node properties required =
     JObject [(''type'', JString ''object''),
              (''properties'', JObject properties),
              (''required'', JArray (map JString required)),
              (''additionalProperties'', JBool False)]"

text \<open>
  Lines 255-275, the body of the \<^verbatim>\<open>try\<close> for a subclass of \<^verbatim>\<open>BaseModel\<close>: the export, the
  loop when \<^verbatim>\<open>definitions\<close> is not empty, and the node returned.
\<close>

fun export_node :: "export \<Rightarrow> py_error + json" where
  "export_node (Raises e) = Inl e"
| "export_node (Schema properties required definitions) =
     (case (if definitions \<noteq> [] then expand_refs definitions properties properties
            else Inr properties) of
        Inl e \<Rightarrow> Inl e
      | Inr properties \<Rightarrow> Inr (object_node properties required))"

section \<open>\<^verbatim>\<open>get_type_info\<close> (lines 199-330)\<close>

text \<open>
  The equations follow the branches of the source in their order. A recursive call that
  raises ends the call that made it, so a result is \<open>Inl\<close> as soon as a recursive result
  is. For a pydantic model the handler of line 276 lets every exception but \<^verbatim>\<open>TypeError\<close>
  pass; after a \<^verbatim>\<open>TypeError\<close> the function goes on to the tests of lines 292 and 312, of
  which the second holds. In the loops over fields and annotations the resolved types are computed first, in
  order, and handed to the loop: the function has no effect besides its result, so this is
  the same computation.
\<close>

function (sequential) get_type_info :: "annotation \<Rightarrow> (builtin \<rightharpoonup> string) \<Rightarrow> py_error + json" where
  "get_type_info (Builtin b) base_type_map =
     (case base_type_map b of
        Some t \<Rightarrow> Inr (JObject [(''type'', JString t)])
      | None \<Rightarrow> Inr string_node)"
| "get_type_info (Generic OList []) base_type_map = Inl IndexError"
| "get_type_info (Generic OList (item_type # _)) base_type_map =
     (case get_type_info item_type base_type_map of
        Inl e \<Rightarrow> Inl e
      | Inr items \<Rightarrow> Inr (JObject [(''type'', JString ''array''), (''items'', items)]))"
| "get_type_info (Generic ODict [key_type, value_type]) base_type_map =
     (if key_type \<noteq> Builtin TStr then Inl DictKeysError
      else if has_annotations value_type \<or> is_basemodel value_type
        then get_type_info value_type base_type_map
      else (case get_type_info value_type base_type_map of
              Inl e \<Rightarrow> Inl e
            | Inr v \<Rightarrow> Inr (JObject [(''type'', JString ''object''), (''additionalProperties'', v)])))"
| "get_type_info (Generic ODict _) base_type_map = Inl UnpackError"
| "get_type_info (Generic OUnion args) base_type_map =
     (case collect (map (\<lambda>arg. get_type_info arg base_type_map)
                        (filter (\<lambda>arg. arg \<noteq> Builtin TNoneType) args)) of
        Inl e \<Rightarrow> Inl e
      | Inr types \<Rightarrow>
          if length types = 1 then Inr (hd types)
          else Inr (JObject [(''oneOf'', JArray types)]))"
| "get_type_info (Generic OOther _) base_type_map = Inr string_node"
| "get_type_info (PydanticModel export anns) base_type_map =
     (case export_node export of
        Inr node \<Rightarrow> Inr node
      | Inl e \<Rightarrow>
          if e \<noteq> TypeError then Inl e
          else
            (case collect (map (\<lambda>(key, field_type). get_type_info field_type base_type_map) anns) of
               Inl e \<Rightarrow> Inl e
             | Inr ts \<Rightarrow>
                 (let required = map fst anns;
                      properties = annotations_loop (zip (map fst anns) ts) []
                  in Inr (object_node properties required))))"
| "get_type_info (Dataclass fs) base_type_map =
     (case collect (map (\<lambda>f. get_type_info (ftype f) base_type_map) fs) of
        Inl e \<Rightarrow> Inl e
      | Inr ts \<Rightarrow>
          (case dataclass_loop (zip fs ts) [] [] of
             (properties, required) \<Rightarrow> Inr (object_node properties required)))"
| "get_type_info (AnnotatedClass anns required_keys) base_type_map =
     (case collect (map (\<lambda>(key, field_type). get_type_info field_type base_type_map) anns) of
        Inl e \<Rightarrow> Inl e
      | Inr ts \<Rightarrow>
          (let required = (case required_keys of Some ks \<Rightarrow> ks | None \<Rightarrow> map fst anns);
               properties = annotations_loop (zip (map fst anns) ts) []
           in Inr (object_node properties required)))"
| "get_type_info (AnnotatedObject anns required_keys) base_type_map =
     (case collect (map (\<lambda>(key, field_type). get_type_info field_type base_type_map) anns) of
        Inl e \<Rightarrow> Inl e
      | Inr ts \<Rightarrow>
          (let required = (case required_keys of Some ks \<Rightarrow> ks | None \<Rightarrow> map fst anns);
               properties = annotations_loop (zip (map fst anns) ts) []
           in Inr (object_node properties required)))"
| "get_type_info Other base_type_map = Inr string_node"
  by pat_completeness auto

termination get_type_info
proof (relation "measure (\<lambda>(a, m). size a)")
  fix fs :: "annotation field list" and m :: "builtin \<rightharpoonup> string" and x
  assume "x \<in> set fs"
  moreover have "size (ftype x) < size_field size x"
    by (cases x) simp
  ultimately have "size (ftype x) < size_list (size_field size) fs"
    by (rule size_list_estimation)
  then show "((ftype x, m), (Dataclass fs, m)) \<in> measure (\<lambda>(a, m). size a)"
    by simp
qed (auto simp: less_Suc_eq_le size_list_estimation')

section \<open>\<^verbatim>\<open>function_to_json\<close> (lines 333-422)\<close>

text \<open>
  One \<^verbatim>\<open>inspect.Parameter\<close>: its name, its annotation and its default (\<open>EMPTY\<close> when the
  parameter has none).
\<close>

record param =
  param_name :: string
  param_annotation :: annotation
  param_default :: pyobj

text \<open>
  The callable: \<^verbatim>\<open>__name__\<close>, \<^verbatim>\<open>__doc__\<close> (\<open>None\<close> when there is no docstring) and the
  parameters of \<^verbatim>\<open>inspect.signature(func)\<close> in order, \<open>None\<close> when that call raises
  \<^verbatim>\<open>ValueError\<close>.
\<close>

record pyfunc =
  func_name :: string
  func_doc :: "string option"
  func_signature :: "param list option"

definition type_map :: "builtin \<rightharpoonup> string" where
  "type_map = map_of [(TStr, ''string''), (TInt, ''integer''), (TFloat, ''number''),
                      (TBool, ''boolean''), (TNoneType, ''null'')]"

text \<open>
  Lines 390-391: \<^verbatim>\<open>del param_info["additionalProperties"]\<close> when the key is there.
\<close>

fun del_additionalProperties :: "json \<Rightarrow> json" where
  "del_additionalProperties (JObject kvs) =
     (if map_of kvs ''additionalProperties'' \<noteq> None
      then JObject (AList.delete ''additionalProperties'' kvs) else JObject kvs)"
| "del_additionalProperties j = j"

text \<open>
  Lines 393-394: the handler catches \<^verbatim>\<open>KeyError\<close> only and raises a \<^verbatim>\<open>KeyError\<close> again;
  every other exception passes through.
\<close>

fun reraise :: "py_error \<Rightarrow> py_error" where
  "reraise KeyError = KeyError"
| "reraise e = e"

text \<open>
  Lines 385-394: the loop over \<^verbatim>\<open>signature.parameters.values()\<close>, threading the dict
  \<^verbatim>\<open>parameters\<close>. \<^verbatim>\<open>get_type_info\<close> is called twice; the first result, \<^verbatim>\<open>param_info\<close>, has
  its key deleted and is not used again.
\<close>

fun parameters_loop :: "param list \<Rightarrow> (string \<times> json) list \<Rightarrow> py_error + (string \<times> json) list" where
  "parameters_loop [] parameters = Inr parameters"
| "parameters_loop (p # rest) parameters =
     (if param_name p = ''context_variables'' then parameters_loop rest parameters
      else
        (case get_type_info (param_annotation p) type_map of
           Inl e \<Rightarrow> Inl (reraise e)
         | Inr param_info \<Rightarrow>
             (let param_info = del_additionalProperties param_info in
              case get_type_info (param_annotation p) type_map of
                Inl e \<Rightarrow> Inl (reraise e)
              | Inr t \<Rightarrow> parameters_loop rest (AList.update (param_name p) t parameters))))"

definition descriptor :: "string \<Rightarrow> string \<Rightarrow> (string \<times> json) list \<Rightarrow> string list \<Rightarrow> json" where
  "descriptor name description parameters required =
     JObject [(''type'', JString ''function''),
              (''function'', JObject
                 [(''name'', JString name),
                  (''description'', JString description),
                  (''parameters'', JObject
                     [(''type'', JString ''object''),
                      (''properties'', JObject parameters),
                      (''required'', JArray (map JString required))])])]"

definition function_to_json :: "pyfunc \<Rightarrow> py_error + json" where
  "function_to_json func =
     (case func_signature func of
        None \<Rightarrow> Inl SignatureError
      | Some params \<Rightarrow>
          (case parameters_loop params [] of
             Inl e \<Rightarrow> Inl e
           | Inr parameters \<Rightarrow>
               (let required = map param_name (filter (\<lambda>p. param_default p = EMPTY) params)
                in Inr (descriptor (func_name func)
                          (case func_doc func of None \<Rightarrow> [] | Some d \<Rightarrow> d)
                          parameters required))))"

section \<open>Dict objects and their identity: the resolver on a store\<close>

text \<open>
  The dicts that \<^verbatim>\<open>get_type_info\<close> builds are objects: a dict display makes a new object, a
  variable or a member of another dict holds a reference to it, and \<^verbatim>\<open>del\<close> changes the
  object for every holder. The store is the list of the dict objects made so far, and the
  address of an object is its index. A member of a dict is a reference to a dict (\<open>Ref\<close>),
  a list of members (\<open>Lst\<close>), or a value that no statement of the two functions changes
  (\<open>Val\<close>): a string, a boolean, the list \<^verbatim>\<open>required\<close>, and what the schema export of
  pydantic hands out, new at every call.
\<close>

datatype hval = Val json | Ref nat | Lst "hval list"

type_synonym store = "(string \<times> hval) list list"

text \<open>A dict display: the new object gets the next address.\<close>

definition new_dict :: "(string \<times> hval) list \<Rightarrow> store \<Rightarrow> (py_error + nat) \<times> store" where
  "new_dict members \<sigma> = (Inr (length \<sigma>), \<sigma> @ [members])"

text \<open>
  What a holder of a value sees when it reads it through, for instance to serialise it.
  A display is evaluated after its members, so the members of the dict at address \<open>r\<close> are
  dicts older than \<open>r\<close>; they are read in whatever state they are.
\<close>

function read :: "store \<Rightarrow> hval \<Rightarrow> json" where
  "read \<sigma> (Val j) = j"
| "read \<sigma> (Lst vs) = JArray (map (read \<sigma>) vs)"
| "read \<sigma> (Ref r) =
     (if r < length \<sigma> then JObject (map (\<lambda>(k, v). (k, read (take r \<sigma>) v)) (\<sigma> ! r))
      else JNull)"
  by pat_completeness auto

termination read
  by (relation "measures [\<lambda>(\<sigma>, v). length \<sigma>, \<lambda>(\<sigma>, v). size v]")
     (auto simp: less_Suc_eq_le size_list_estimation')

text \<open>The members of a dict whose values are never changed.\<close>

fun members_of :: "json \<Rightarrow> (string \<times> hval) list" where
  "members_of (JObject kvs) = map (\<lambda>(k, j). (k, Val j)) kvs"
| "members_of j = []"

text \<open>
  The return of lines 300-305 and 322-327: the dict \<^verbatim>\<open>properties\<close>, filled by the loop, and
  the node that refers to it. \<^verbatim>\<open>properties\<close> is entered in the store when the loop has filled
  it: until then only the local variable refers to it.
\<close>

definition new_object :: "(string \<times> hval) list \<Rightarrow> string list \<Rightarrow> store \<Rightarrow> (py_error + nat) \<times> store" where
  "new_object properties required \<sigma> =
     new_dict [(''type'', Val (JString ''object'')),
               (''properties'', Ref (length \<sigma>)),
               (''required'', Val (JArray (map JString required))),
               (''additionalProperties'', Val (JBool False))]
       (\<sigma> @ [properties])"

text \<open>
  \<^verbatim>\<open>get_type_info\<close> once more, branch by branch, on the store: a call returns the address of
  the dict it hands out, and the store with the dicts it has made. \<open>resolve_all_h\<close> is a
  comprehension or a loop that calls it on one annotation after the other.
\<close>

function (sequential) get_type_info_h ::
    "annotation \<Rightarrow> (builtin \<rightharpoonup> string) \<Rightarrow> store \<Rightarrow> (py_error + nat) \<times> store"
  and resolve_all_h ::
    "annotation list \<Rightarrow> (builtin \<rightharpoonup> string) \<Rightarrow> store \<Rightarrow> (py_error + nat list) \<times> store"
where
  "get_type_info_h (Builtin b) base_type_map \<sigma> =
     (case base_type_map b of
        Some t \<Rightarrow> new_dict [(''type'', Val (JString t))] \<sigma>
      | None \<Rightarrow> new_dict (members_of string_node) \<sigma>)"
| "get_type_info_h (Generic OList []) base_type_map \<sigma> = (Inl IndexError, \<sigma>)"
| "get_type_info_h (Generic OList (item_type # _)) base_type_map \<sigma> =
     (case get_type_info_h item_type base_type_map \<sigma> of
        (Inl e, \<sigma>') \<Rightarrow> (Inl e, \<sigma>')
      | (Inr items, \<sigma>') \<Rightarrow>
          new_dict [(''type'', Val (JString ''array'')), (''items'', Ref items)] \<sigma>')"
| "get_type_info_h (Generic ODict [key_type, value_type]) base_type_map \<sigma> =
     (if key_type \<noteq> Builtin TStr then (Inl DictKeysError, \<sigma>)
      else if has_annotations value_type \<or> is_basemodel value_type
        then get_type_info_h value_type base_type_map \<sigma>
      else (case get_type_info_h value_type base_type_map \<sigma> of
              (Inl e, \<sigma>') \<Rightarrow> (Inl e, \<sigma>')
            | (Inr v, \<sigma>') \<Rightarrow>
                new_dict [(''type'', Val (JString ''object'')), (''additionalProperties'', Ref v)] \<sigma>'))"
| "get_type_info_h (Generic ODict _) base_type_map \<sigma> = (Inl UnpackError, \<sigma>)"
| "get_type_info_h (Generic OUnion args) base_type_map \<sigma> =
     (case resolve_all_h (filter (\<lambda>arg. arg \<noteq> Builtin TNoneType) args) base_type_map \<sigma> of
        (Inl e, \<sigma>') \<Rightarrow> (Inl e, \<sigma>')
      | (Inr types, \<sigma>') \<Rightarrow>
          if length types = 1 then (Inr (hd types), \<sigma>')
          else new_dict [(''oneOf'', Lst (map Ref types))] \<sigma>')"
| "get_type_info_h (Generic OOther _) base_type_map \<sigma> = new_dict (members_of string_node) \<sigma>"
| "get_type_info_h (PydanticModel export anns) base_type_map \<sigma> =
     (case export_node export of
        Inr node \<Rightarrow> new_dict (members_of node) \<sigma>
      | Inl e \<Rightarrow>
          if e \<noteq> TypeError then (Inl e, \<sigma>)
          else
            (case resolve_all_h (map snd anns) base_type_map \<sigma> of
               (Inl e, \<sigma>') \<Rightarrow> (Inl e, \<sigma>')
             | (Inr ts, \<sigma>') \<Rightarrow>
                 (let required = map fst anns;
                      properties = annotations_loop (zip (map fst anns) (map Ref ts)) []
                  in new_object properties required \<sigma>')))"
| "get_type_info_h (Dataclass fs) base_type_map \<sigma> =
     (case resolve_all_h (map ftype fs) base_type_map \<sigma> of
        (Inl e, \<sigma>') \<Rightarrow> (Inl e, \<sigma>')
      | (Inr ts, \<sigma>') \<Rightarrow>
          (case dataclass_loop (zip fs (map Ref ts)) [] [] of
             (properties, required) \<Rightarrow> new_object properties required \<sigma>'))"
| "get_type_info_h (AnnotatedClass anns required_keys) base_type_map \<sigma> =
     (case resolve_all_h (map snd anns) base_type_map \<sigma> of
        (Inl e, \<sigma>') \<Rightarrow> (Inl e, \<sigma>')
      | (Inr ts, \<sigma>') \<Rightarrow>
          (let required = (case required_keys of Some ks \<Rightarrow> ks | None \<Rightarrow> map fst anns);
               properties = annotations_loop (zip (map fst anns) (map Ref ts)) []
           in new_object properties required \<sigma>'))"
| "get_type_info_h (AnnotatedObject anns required_keys) base_type_map \<sigma> =
     (case resolve_all_h (map snd anns) base_type_map \<sigma> of
        (Inl e, \<sigma>') \<Rightarrow> (Inl e, \<sigma>')
      | (Inr ts, \<sigma>') \<Rightarrow>
          (let required = (case required_keys of Some ks \<Rightarrow> ks | None \<Rightarrow> map fst anns);
               properties = annotations_loop (zip (map fst anns) (map Ref ts)) []
           in new_object properties required \<sigma>'))"
| "get_type_info_h Other base_type_map \<sigma> = new_dict (members_of string_node) \<sigma>"
| "resolve_all_h [] base_type_map \<sigma> = (Inr [], \<sigma>)"
| "resolve_all_h (a # as) base_type_map \<sigma> =
     (case get_type_info_h a base_type_map \<sigma> of
        (Inl e, \<sigma>') \<Rightarrow> (Inl e, \<sigma>')
      | (Inr r, \<sigma>') \<Rightarrow>
          (case resolve_all_h as base_type_map \<sigma>' of
             (Inl e, \<sigma>'') \<Rightarrow> (Inl e, \<sigma>'')
           | (Inr rs, \<sigma>'') \<Rightarrow> (Inr (r # rs), \<sigma>'')))"
  by pat_completeness auto

termination get_type_info_h
proof (relation "measure (case_sum (\<lambda>(a, m, \<sigma>). 2 * size a)
                                   (\<lambda>(as, m, \<sigma>). 2 * size_list size as + 1))")
  have filter_le: "size_list size (filter P as) \<le> size_list size as"
    for P and as :: "annotation list"
    by (induction as) simp_all
  have ftype_le: "size_list size (map ftype fs) \<le> size_list (size_field size) fs"
    for fs :: "annotation field list"
  proof (induction fs)
    case Nil
    then show ?case by simp
  next
    case (Cons f fs)
    have "size (ftype f) \<le> size_field size f" by (cases f) simp
    with Cons show ?case by simp
  qed
  have snd_le: "size_list size (map snd anns) \<le> size_list (size_prod (\<lambda>x. 0) size) anns"
    for anns :: "(string \<times> annotation) list"
    by (induction anns) auto
  fix m :: "builtin \<rightharpoonup> string" and \<sigma> :: store
  show "(Inr (filter (\<lambda>arg. arg \<noteq> Builtin TNoneType) args, m, \<sigma>), Inl (Generic OUnion args, m, \<sigma>))
          \<in> measure (case_sum (\<lambda>(a, m, \<sigma>). 2 * size a) (\<lambda>(as, m, \<sigma>). 2 * size_list size as + 1))"
    for args
    using filter_le [of "\<lambda>arg. arg \<noteq> Builtin TNoneType" args] by simp
  show "(Inr (map ftype fs, m, \<sigma>), Inl (Dataclass fs, m, \<sigma>))
          \<in> measure (case_sum (\<lambda>(a, m, \<sigma>). 2 * size a) (\<lambda>(as, m, \<sigma>). 2 * size_list size as + 1))"
    for fs
    using ftype_le [of fs] by simp
  show "(Inr (map snd anns, m, \<sigma>), Inl (PydanticModel export anns, m, \<sigma>))
          \<in> measure (case_sum (\<lambda>(a, m, \<sigma>). 2 * size a) (\<lambda>(as, m, \<sigma>). 2 * size_list size as + 1))"
    for anns export
    using snd_le [of anns] by simp
  show "(Inr (map snd anns, m, \<sigma>), Inl (AnnotatedClass anns rk, m, \<sigma>))
          \<in> measure (case_sum (\<lambda>(a, m, \<sigma>). 2 * size a) (\<lambda>(as, m, \<sigma>). 2 * size_list size as + 1))"
    for anns rk
    using snd_le [of anns] by simp
  show "(Inr (map snd anns, m, \<sigma>), Inl (AnnotatedObject anns rk, m, \<sigma>))
          \<in> measure (case_sum (\<lambda>(a, m, \<sigma>). 2 * size a) (\<lambda>(as, m, \<sigma>). 2 * size_list size as + 1))"
    for anns rk
    using snd_le [of anns] by simp
qed simp_all

text \<open>
  Lines 390-391 on the store: \<^verbatim>\<open>del param_info["additionalProperties"]\<close> changes the dict
  at the address \<^verbatim>\<open>param_info\<close> when the key is there.
\<close>

definition del_additionalProperties_h :: "nat \<Rightarrow> store \<Rightarrow> store" where
  "del_additionalProperties_h r \<sigma> =
     (if map_of (\<sigma> ! r) ''additionalProperties'' \<noteq> None
      then \<sigma>[r := AList.delete ''additionalProperties'' (\<sigma> ! r)] else \<sigma>)"

text \<open>
  The outcome of a call that started on the store \<open>\<sigma>\<close> agrees with a value: the call has
  only added dicts to the store; it raises the same exception, or it returns the address
  of a dict made during the call, which reads as the node.
\<close>

definition agrees :: "store \<Rightarrow> (py_error + nat) \<times> store \<Rightarrow> py_error + json \<Rightarrow> bool" where
  "agrees \<sigma> out v \<longleftrightarrow>
     (\<exists>\<tau>. snd out = \<sigma> @ \<tau>) \<and>
     (case v of
        Inl e \<Rightarrow> fst out = Inl e
      | Inr n \<Rightarrow> (\<exists>r. fst out = Inr r \<and> length \<sigma> \<le> r \<and> r < length (snd out)
                    \<and> read (snd out) (Ref r) = n))"

definition agrees_all :: "store \<Rightarrow> (py_error + nat list) \<times> store \<Rightarrow> py_error + json list \<Rightarrow> bool" where
  "agrees_all \<sigma> out v \<longleftrightarrow>
     (\<exists>\<tau>. snd out = \<sigma> @ \<tau>) \<and>
     (case v of
        Inl e \<Rightarrow> fst out = Inl e
      | Inr ns \<Rightarrow> (\<exists>rs. fst out = Inr rs
                    \<and> list_all2 (\<lambda>r n. length \<sigma> \<le> r \<and> r < length (snd out)
                                       \<and> read (snd out) (Ref r) = n) rs ns))"

text \<open>
  Lines 385-394 on the store. \<^verbatim>\<open>param_info\<close> is the address that the first call returns;
  the deletion changes the dict at that address; the second call runs on the store so
  changed, and \<^verbatim>\<open>parameters\<close> keeps the address that it returns.
\<close>

fun parameters_loop_h ::
  "param list \<Rightarrow> (string \<times> hval) list \<Rightarrow> store \<Rightarrow> (py_error + (string \<times> hval) list) \<times> store"
where
  "parameters_loop_h [] parameters \<sigma> = (Inr parameters, \<sigma>)"
| "parameters_loop_h (p # rest) parameters \<sigma> =
     (if param_name p = ''context_variables'' then parameters_loop_h rest parameters \<sigma>
      else
        (case get_type_info_h (param_annotation p) type_map \<sigma> of
           (Inl e, \<sigma>1) \<Rightarrow> (Inl (reraise e), \<sigma>1)
         | (Inr param_info, \<sigma>1) \<Rightarrow>
             (let \<sigma>2 = del_additionalProperties_h param_info \<sigma>1 in
              case get_type_info_h (param_annotation p) type_map \<sigma>2 of
                (Inl e, \<sigma>3) \<Rightarrow> (Inl (reraise e), \<sigma>3)
              | (Inr t, \<sigma>3) \<Rightarrow>
                  parameters_loop_h rest (AList.update (param_name p) (Ref t) parameters) \<sigma>3)))"

text \<open>
  \<^verbatim>\<open>function_to_json\<close> on the store, started on any store: the descriptor as its caller
  reads it.
\<close>

definition function_to_json_h :: "pyfunc \<Rightarrow> store \<Rightarrow> py_error + json" where
  "function_to_json_h func \<sigma> =
     (case func_signature func of
        None \<Rightarrow> Inl SignatureError
      | Some params \<Rightarrow>
          (case parameters_loop_h params [] \<sigma> of
             (Inl e, \<sigma>') \<Rightarrow> Inl e
           | (Inr parameters, \<sigma>') \<Rightarrow>
               (let required = map param_name (filter (\<lambda>p. param_default p = EMPTY) params)
                in Inr (descriptor (func_name func)
                          (case func_doc func of None \<Rightarrow> [] | Some d \<Rightarrow> d)
                          (map (\<lambda>(k, v). (k, read \<sigma>' v)) parameters) required))))"

section \<open>The specification's notions\<close>

text \<open>
  The record kinds of the specification: \<^emph>\<open>ValidatedRecord\<close> (a pydantic model),
  \<^emph>\<open>PlainRecord\<close> (a dataclass) and \<^emph>\<open>StructuralMapping\<close> (a \<^verbatim>\<open>TypedDict\<close>). An object that
  merely has \<^verbatim>\<open>__annotations__\<close> is no record kind.
\<close>

fun record_kind :: "annotation \<Rightarrow> bool" where
  "record_kind (PydanticModel _ _) = True"
| "record_kind (Dataclass _) = True"
| "record_kind (AnnotatedClass _ _) = True"
| "record_kind _ = False"

text \<open>
  A property schema as pydantic exports it: a JSON object whose \<^verbatim>\<open>$ref\<close>, when it has one,
  is a string.
\<close>

fun object_schema :: "json \<Rightarrow> bool" where
  "object_schema (JObject kvs) =
     (case map_of kvs ''$ref'' of None \<Rightarrow> True | Some (JString r) \<Rightarrow> True | Some _ \<Rightarrow> False)"
| "object_schema _ = False"

text \<open>
  Flattening one level of indirection, as the specification words it: a property schema
  that is itself a reference to a named definition is replaced by the body of that
  definition; any other property schema, and the body put in its place, are left as they
  are.
\<close>

fun inline_ref :: "(string \<times> json) list \<Rightarrow> json \<Rightarrow> json" where
  "inline_ref definitions (JObject kvs) =
     (case map_of kvs ''$ref'' of
        Some (JString r) \<Rightarrow>
          (case map_of definitions (last (split_on CHR ''/'' r)) of
             None \<Rightarrow> JObject kvs
           | Some body \<Rightarrow> body)
      | _ \<Rightarrow> JObject kvs)"
| "inline_ref definitions prop_schema = prop_schema"



section \<open>Lemmas about the helpers\<close>

lemma collect_map_Inr: "collect (map Inr xs) = Inr xs"
  by (induction xs) simp_all

lemma collect_InrD: "collect rs = Inr xs \<Longrightarrow> rs = map Inr xs"
proof (induction rs arbitrary: xs)
  case Nil
  then show ?case by simp
next
  case (Cons r rs)
  then show ?case by (cases r) (auto split: sum.splits)
qed

lemma collect_Inr_iff: "collect rs = Inr xs \<longleftrightarrow> rs = map Inr xs"
  using collect_InrD collect_map_Inr by blast

lemma collect_Inl_mem: "collect rs = Inl e \<Longrightarrow> Inl e \<in> set rs"
proof (induction rs)
  case Nil
  then show ?case by simp
next
  case (Cons r rs)
  then show ?case by (cases r) (auto split: sum.splits)
qed

lemma collect_cases: "(\<exists>e. collect rs = Inl e \<and> Inl e \<in> set rs) \<or> (\<exists>xs. collect rs = Inr xs \<and> rs = map Inr xs)"
  by (cases "collect rs") (auto simp: collect_Inl_mem collect_Inr_iff)

lemma update_fresh: "k \<notin> fst ` set al \<Longrightarrow> AList.update k v al = al @ [(k, v)]"
  by (induction al) auto

lemma update_middle:
  "k \<notin> fst ` set front \<Longrightarrow> AList.update k v (front @ (k, s) # rest) = front @ (k, v) # rest"
  by (induction front) auto

lemma annotations_loop_append:
  "distinct (map fst kvs) \<Longrightarrow> fst ` set acc \<inter> fst ` set kvs = {} \<Longrightarrow>
   annotations_loop kvs acc = acc @ kvs"
proof (induction kvs arbitrary: acc)
  case Nil
  then show ?case by simp
next
  case (Cons kv kvs)
  obtain k v where kv: "kv = (k, v)" by (cases kv)
  from Cons.prems have fresh: "k \<notin> fst ` set acc" and d: "distinct (map fst kvs)"
    and nk: "k \<notin> fst ` set kvs" and disj: "fst ` set acc \<inter> fst ` set kvs = {}"
    by (auto simp: kv)
  have "fst ` set (acc @ [(k, v)]) \<inter> fst ` set kvs = {}"
    using disj nk by auto
  with Cons.IH [OF d] have "annotations_loop kvs (acc @ [(k, v)]) = (acc @ [(k, v)]) @ kvs"
    by blast
  then show ?case by (simp add: kv update_fresh [OF fresh])
qed

lemma dataclass_loop_append:
  "length fs = length ts \<Longrightarrow> distinct (map fname fs) \<Longrightarrow> fst ` set ps \<inter> fname ` set fs = {} \<Longrightarrow>
   dataclass_loop (zip fs ts) ps req =
     (ps @ zip (map fname fs) ts,
      req @ map fname (filter (\<lambda>f. fdefault f = MISSING \<and> fdefault_factory f = MISSING) fs))"
proof (induction fs ts arbitrary: ps req rule: list_induct2)
  case Nil
  then show ?case by simp
next
  case (Cons f fs t ts)
  from Cons.prems have fresh: "fname f \<notin> fst ` set ps" and d: "distinct (map fname fs)"
    and nk: "fname f \<notin> fname ` set fs" and disj: "fst ` set ps \<inter> fname ` set fs = {}"
    by auto
  have disj': "fst ` set (ps @ [(fname f, t)]) \<inter> fname ` set fs = {}"
    using disj nk by auto
  show ?case
    by (simp add: update_fresh [OF fresh] Cons.IH [OF d disj'])
qed

lemma expand_refs_map:
  "distinct (map fst items) \<Longrightarrow> fst ` set front \<inter> fst ` set items = {} \<Longrightarrow>
   \<forall>(k, s)\<in>set items. object_schema s \<Longrightarrow>
   expand_refs ds items (front @ items) =
     Inr (front @ map (\<lambda>(k, s). (k, inline_ref ds s)) items)"
proof (induction items arbitrary: front)
  case Nil
  then show ?case by simp
next
  case (Cons kv items)
  obtain k s where kv: "kv = (k, s)" by (cases kv)
  from Cons.prems have fresh: "k \<notin> fst ` set front" and d: "distinct (map fst items)"
    and nk: "k \<notin> fst ` set items" and disj: "fst ` set front \<inter> fst ` set items = {}"
    and os: "object_schema s" and oss: "\<forall>(k, s)\<in>set items. object_schema s"
    by (auto simp: kv)
  have disj': "\<And>v. fst ` set (front @ [(k, v)]) \<inter> fst ` set items = {}"
    using disj nk by auto
  have step: "\<And>v. expand_refs ds items (front @ (k, v) # items)
                 = Inr (front @ (k, v) # map (\<lambda>(k, s). (k, inline_ref ds s)) items)"
    using Cons.IH [OF d disj' oss] by simp
  from os obtain kvs where s: "s = JObject kvs"
    by (cases s) simp_all
  show ?case
  proof (cases "map_of kvs ''$ref''")
    case None
    then show ?thesis by (simp add: kv s step)
  next
    case (Some v)
    with os s obtain r where v: "v = JString r"
      by (cases v) simp_all
    show ?thesis
      by (simp add: kv s Some v step update_middle [OF fresh] Let_def split: option.splits)
  qed
qed

lemma inline_ref_no_defs_1: "inline_ref [] s = s"
  by (cases s) (auto split: option.splits json.splits)

lemma inline_ref_no_defs: "map (\<lambda>(k, s). (k, inline_ref [] s)) ps = ps"
  by (induction ps) (auto simp: inline_ref_no_defs_1 simp del: inline_ref.simps)

lemma collect_map_Inr_eq:
  "map f xs = map Inr ys \<Longrightarrow> collect (map f xs) = Inr ys"
  by (simp add: collect_map_Inr)


lemma parameters_loop_ok:
  "distinct (map param_name ps) \<Longrightarrow> fst ` set acc \<inter> param_name ` set ps = {} \<Longrightarrow>
   map (\<lambda>p. get_type_info (param_annotation p) type_map)
       (filter (\<lambda>p. param_name p \<noteq> ''context_variables'') ps) = map Inr ns \<Longrightarrow>
   parameters_loop ps acc =
     Inr (acc @ zip (map param_name (filter (\<lambda>p. param_name p \<noteq> ''context_variables'') ps)) ns)"
proof (induction ps arbitrary: acc ns)
  case Nil
  then show ?case by simp
next
  case (Cons p ps)
  from Cons.prems have d: "distinct (map param_name ps)"
    and fresh: "param_name p \<notin> fst ` set acc"
    and nk: "param_name p \<notin> param_name ` set ps"
    and disj: "fst ` set acc \<inter> param_name ` set ps = {}"
    by auto
  show ?case
  proof (cases "param_name p = ''context_variables''")
    case True
    with Cons.prems(3) Cons.IH [OF d disj] show ?thesis by simp
  next
    case False
    with Cons.prems(3) obtain n ns' where ns: "ns = n # ns'"
      and n: "get_type_info (param_annotation p) type_map = Inr n"
      and rest: "map (\<lambda>p. get_type_info (param_annotation p) type_map)
                   (filter (\<lambda>p. param_name p \<noteq> ''context_variables'') ps) = map Inr ns'"
      by (cases ns) auto
    have disj': "fst ` set (acc @ [(param_name p, n)]) \<inter> param_name ` set ps = {}"
      using disj nk by auto
    show ?thesis
      using False n Cons.IH [OF d disj' rest]
      by (simp add: ns update_fresh [OF fresh])
  qed
qed

lemma parameters_loop_InrD:
  "parameters_loop ps acc = Inr r \<Longrightarrow>
   \<exists>ns. map (\<lambda>p. get_type_info (param_annotation p) type_map)
            (filter (\<lambda>p. param_name p \<noteq> ''context_variables'') ps) = map Inr ns"
proof (induction ps arbitrary: acc)
  case Nil
  then show ?case by simp
next
  case (Cons p ps)
  show ?case
  proof (cases "param_name p = ''context_variables''")
    case True
    with Cons show ?thesis by simp
  next
    case False
    with Cons.prems obtain n where n: "get_type_info (param_annotation p) type_map = Inr n"
      and r: "parameters_loop ps (AList.update (param_name p) n acc) = Inr r"
      by (auto split: sum.splits)
    from Cons.IH [OF r] obtain ns where
      "map (\<lambda>p. get_type_info (param_annotation p) type_map)
         (filter (\<lambda>p. param_name p \<noteq> ''context_variables'') ps) = map Inr ns" ..
    with False n have
      "map (\<lambda>p. get_type_info (param_annotation p) type_map)
         (filter (\<lambda>p. param_name p \<noteq> ''context_variables'') (p # ps)) = map Inr (n # ns)"
      by simp
    then show ?thesis ..
  qed
qed



lemma function_to_json_Inr:
  assumes sig: "func_signature f = Some ps"
    and d: "distinct (map param_name ps)"
    and ns: "map (\<lambda>p. get_type_info (param_annotation p) type_map)
               (filter (\<lambda>p. param_name p \<noteq> ''context_variables'') ps) = map Inr ns"
  shows "function_to_json f =
     Inr (descriptor (func_name f) (case func_doc f of None \<Rightarrow> [] | Some doc \<Rightarrow> doc)
            (zip (map param_name (filter (\<lambda>p. param_name p \<noteq> ''context_variables'') ps)) ns)
            (map param_name (filter (\<lambda>p. param_default p = EMPTY) ps)))"
proof -
  have "parameters_loop ps [] =
          Inr ([] @ zip (map param_name (filter (\<lambda>p. param_name p \<noteq> ''context_variables'') ps)) ns)"
    using d ns by (intro parameters_loop_ok) simp_all
  then show ?thesis
    by (simp add: function_to_json_def sig)
qed



lemma fallback_string_node:
  "get_type_info Other m = Inr (JObject [(''type'', JString ''string'')])"
  "get_type_info (Generic OOther args) m = Inr (JObject [(''type'', JString ''string'')])"
  by (simp_all add: string_node_def)


subsection \<open>The resolver on the store against the resolver on values\<close>

lemma read_Ref_append: "r < length \<sigma> \<Longrightarrow> read (\<sigma> @ \<tau>) (Ref r) = read \<sigma> (Ref r)"
  by (simp add: nth_append)

lemma read_new: "read (\<sigma> @ [members]) (Ref (length \<sigma>)) = JObject (map (\<lambda>(k, v). (k, read \<sigma> v)) members)"
  by simp

declare read.simps(3) [simp del]

lemma read_members_of: "map (\<lambda>(k, v). (k, read \<sigma> v)) (members_of (JObject kvs)) = kvs"
  by (induction kvs) auto

lemma update_map_values:
  "AList.update k (g v) (map (\<lambda>(k, v). (k, g v)) al) = map (\<lambda>(k, v). (k, g v)) (AList.update k v al)"
  by (induction al) auto

lemma annotations_loop_map_values:
  "annotations_loop (map (\<lambda>(k, v). (k, g v)) kvs) (map (\<lambda>(k, v). (k, g v)) acc) =
     map (\<lambda>(k, v). (k, g v)) (annotations_loop kvs acc)"
proof (induction kvs arbitrary: acc)
  case Nil
  then show ?case by simp
next
  case (Cons kv kvs)
  obtain k v where kv: "kv = (k, v)" by (cases kv)
  show ?case
    using Cons.IH [of "AList.update k v acc"]
    by (simp add: kv update_map_values)
qed

lemma dataclass_loop_map_values:
  "dataclass_loop (map (\<lambda>(f, v). (f, g v)) fvs) (map (\<lambda>(k, v). (k, g v)) acc) req =
     (map (\<lambda>(k, v). (k, g v)) (fst (dataclass_loop fvs acc req)), snd (dataclass_loop fvs acc req))"
proof (induction fvs arbitrary: acc req)
  case Nil
  then show ?case by simp
next
  case (Cons fv fvs)
  obtain f v where fv: "fv = (f, v)" by (cases fv)
  show ?case
    using Cons.IH [of "AList.update (fname f) v acc"]
    by (simp add: fv update_map_values)
qed

lemma agrees_raise: "agrees \<sigma> (Inl e, \<sigma> @ \<tau>) (Inl e)"
  by (simp add: agrees_def)

lemma agrees_InlD:
  "agrees \<sigma> out (Inl e) \<Longrightarrow> \<exists>\<tau>. out = (Inl e, \<sigma> @ \<tau>)"
  by (cases out) (auto simp: agrees_def)

lemma agrees_InrD:
  "agrees \<sigma> out (Inr n) \<Longrightarrow>
     \<exists>r \<tau>. out = (Inr r, \<sigma> @ \<tau>) \<and> length \<sigma> \<le> r \<and> r < length (\<sigma> @ \<tau>)
       \<and> read (\<sigma> @ \<tau>) (Ref r) = n"
  by (cases out) (auto simp: agrees_def)

lemma agrees_all_InlD:
  "agrees_all \<sigma> out (Inl e) \<Longrightarrow> \<exists>\<tau>. out = (Inl e, \<sigma> @ \<tau>)"
  by (cases out) (auto simp: agrees_all_def)

lemma agrees_all_InrD:
  "agrees_all \<sigma> out (Inr ns) \<Longrightarrow>
     \<exists>rs \<tau>. out = (Inr rs, \<sigma> @ \<tau>)
       \<and> list_all2 (\<lambda>r n. length \<sigma> \<le> r \<and> r < length (\<sigma> @ \<tau>) \<and> read (\<sigma> @ \<tau>) (Ref r) = n) rs ns"
  by (cases out) (auto simp: agrees_all_def)

lemma agrees_new_dict:
  assumes "map (\<lambda>(k, v). (k, read (\<sigma> @ \<tau>) v)) members = kvs"
  shows "agrees \<sigma> (new_dict members (\<sigma> @ \<tau>)) (Inr (JObject kvs))"
  using assms read_new [of "\<sigma> @ \<tau>" members] by (auto simp: agrees_def new_dict_def)

lemma agrees_new_object:
  assumes "map (\<lambda>(k, v). (k, read (\<sigma> @ \<tau>) v)) properties = props"
  shows "agrees \<sigma> (new_object properties required (\<sigma> @ \<tau>)) (Inr (object_node props required))"
  using assms read_new [of "\<sigma> @ \<tau>" properties]
    read_new [of "\<sigma> @ \<tau> @ [properties]"
      "[(''type'', Val (JString ''object'')),
        (''properties'', Ref (length (\<sigma> @ \<tau>))),
        (''required'', Val (JArray (map JString required))),
        (''additionalProperties'', Val (JBool False))]"]
  by (auto simp: agrees_def new_object_def new_dict_def object_node_def)

lemma read_refs:
  "list_all2 (\<lambda>r n. P r \<and> read \<sigma> (Ref r) = n) rs ns \<Longrightarrow> map (\<lambda>r. read \<sigma> (Ref r)) rs = ns"
  by (induction rs ns rule: list_all2_induct) simp_all

lemma export_node_object: "export_node export = Inr node \<Longrightarrow> \<exists>kvs. node = JObject kvs"
  by (cases export) (auto simp: object_node_def split: sum.splits if_splits)

lemma agrees_annotations:
  assumes all: "agrees_all \<sigma> (resolve_all_h (map snd anns) m \<sigma>)
                  (collect (map (\<lambda>a. get_type_info a m) (map snd anns)))"
  shows "agrees \<sigma>
     (case resolve_all_h (map snd anns) m \<sigma> of
        (Inl e, \<sigma>') \<Rightarrow> (Inl e, \<sigma>')
      | (Inr ts, \<sigma>') \<Rightarrow>
          new_object (annotations_loop (zip (map fst anns) (map Ref ts)) []) required \<sigma>')
     (case collect (map (\<lambda>(key, field_type). get_type_info field_type m) anns) of
        Inl e \<Rightarrow> Inl e
      | Inr ts \<Rightarrow> Inr (object_node (annotations_loop (zip (map fst anns) ts) []) required))"
proof -
  have pure: "map (\<lambda>(key, field_type). get_type_info field_type m) anns =
                map (\<lambda>a. get_type_info a m) (map snd anns)"
    by (simp add: case_prod_beta)
  show ?thesis
  proof (cases "collect (map (\<lambda>a. get_type_info a m) (map snd anns))")
    case (Inl e)
    with all obtain \<tau> where out: "resolve_all_h (map snd anns) m \<sigma> = (Inl e, \<sigma> @ \<tau>)"
      by (auto dest: agrees_all_InlD)
    from Inl have "collect (map (\<lambda>(key, field_type). get_type_info field_type m) anns) = Inl e"
      unfolding pure .
    then show ?thesis by (simp only: out agrees_raise prod.case sum.case)
  next
    case (Inr ns)
    with all obtain rs \<tau> where out: "resolve_all_h (map snd anns) m \<sigma> = (Inr rs, \<sigma> @ \<tau>)"
      and rs: "list_all2 (\<lambda>r n. length \<sigma> \<le> r \<and> r < length (\<sigma> @ \<tau>) \<and> read (\<sigma> @ \<tau>) (Ref r) = n) rs ns"
      by (auto dest: agrees_all_InrD)
    from rs have "list_all2 (\<lambda>r n. (length \<sigma> \<le> r \<and> r < length (\<sigma> @ \<tau>)) \<and> read (\<sigma> @ \<tau>) (Ref r) = n) rs ns"
      by (simp add: conj_assoc)
    then have ns: "map (\<lambda>r. read (\<sigma> @ \<tau>) (Ref r)) rs = ns"
      by (rule read_refs)
    have "zip (map fst anns) ns =
            map (\<lambda>(k, v). (k, read (\<sigma> @ \<tau>) v)) (zip (map fst anns) (map Ref rs))"
      unfolding ns [symmetric] by (simp add: zip_map2 case_prod_beta)
    then have "map (\<lambda>(k, v). (k, read (\<sigma> @ \<tau>) v))
                 (annotations_loop (zip (map fst anns) (map Ref rs)) []) =
               annotations_loop (zip (map fst anns) ns) []"
      using annotations_loop_map_values
              [of "read (\<sigma> @ \<tau>)" "zip (map fst anns) (map Ref rs)" "[]"]
      by simp
    moreover from Inr have "collect (map (\<lambda>(key, field_type). get_type_info field_type m) anns) = Inr ns"
      unfolding pure .
    ultimately show ?thesis
      using agrees_new_object [of \<sigma> \<tau> "annotations_loop (zip (map fst anns) (map Ref rs)) []"
          "annotations_loop (zip (map fst anns) ns) []" required]
      by (simp only: out prod.case sum.case)
  qed
qed

lemma resolver_on_store:
  "agrees \<sigma> (get_type_info_h a m \<sigma>) (get_type_info a m)"
  "agrees_all \<sigma> (resolve_all_h as m \<sigma>) (collect (map (\<lambda>a. get_type_info a m) as))"
proof (induction a m \<sigma> and as m \<sigma> rule: get_type_info_h_resolve_all_h.induct)
  case (1 b m \<sigma>)
  show ?case
    using agrees_new_dict [of \<sigma> "[]" "[(''type'', Val (JString t))]" "[(''type'', JString t)]" for t]
    by (cases "m b") (simp_all add: string_node_def)
next
  case (2 m \<sigma>)
  show ?case using agrees_raise [of \<sigma> IndexError "[]"] by simp
next
  case (3 item_type uu m \<sigma>)
  show ?case
  proof (cases "get_type_info item_type m")
    case (Inl e)
    with 3 obtain \<tau> where "get_type_info_h item_type m \<sigma> = (Inl e, \<sigma> @ \<tau>)"
      by (auto dest: agrees_InlD)
    with Inl show ?thesis by (simp add: agrees_raise)
  next
    case (Inr n)
    with 3 obtain r \<tau> where out: "get_type_info_h item_type m \<sigma> = (Inr r, \<sigma> @ \<tau>)"
      and r: "read (\<sigma> @ \<tau>) (Ref r) = n"
      by (auto dest: agrees_InrD)
    have "map (\<lambda>(k, v). (k, read (\<sigma> @ \<tau>) v)) [(''type'', Val (JString ''array'')), (''items'', Ref r)] =
            [(''type'', JString ''array''), (''items'', n)]"
      using r by simp
    from agrees_new_dict [OF this] show ?thesis
      by (simp add: out Inr)
  qed
next
  case (4 key_type value_type m \<sigma>)
  show ?case
  proof (cases "key_type \<noteq> Builtin TStr")
    case True
    then show ?thesis using agrees_raise [of \<sigma> DictKeysError "[]"] by simp
  next
    case key: False
    show ?thesis
    proof (cases "has_annotations value_type \<or> is_basemodel value_type")
      case True
      with key 4(1) show ?thesis by simp
    next
      case False
      with key 4(2) have IH: "agrees \<sigma> (get_type_info_h value_type m \<sigma>) (get_type_info value_type m)"
        by simp
      show ?thesis
      proof (cases "get_type_info value_type m")
        case (Inl e)
        with IH obtain \<tau> where "get_type_info_h value_type m \<sigma> = (Inl e, \<sigma> @ \<tau>)"
          by (auto dest: agrees_InlD)
        with Inl key False show ?thesis by (simp add: agrees_raise)
      next
        case (Inr n)
        with IH obtain r \<tau> where out: "get_type_info_h value_type m \<sigma> = (Inr r, \<sigma> @ \<tau>)"
          and r: "read (\<sigma> @ \<tau>) (Ref r) = n"
          by (auto dest: agrees_InrD)
        have "map (\<lambda>(k, v). (k, read (\<sigma> @ \<tau>) v))
                [(''type'', Val (JString ''object'')), (''additionalProperties'', Ref r)] =
              [(''type'', JString ''object''), (''additionalProperties'', n)]"
          using r by simp
        from agrees_new_dict [OF this] show ?thesis
          using key False by (simp add: out Inr)
      qed
    qed
  qed
next
  case (6 args m \<sigma>)
  let ?xs = "filter (\<lambda>arg. arg \<noteq> Builtin TNoneType) args"
  show ?case
  proof (cases "collect (map (\<lambda>a. get_type_info a m) ?xs)")
    case (Inl e)
    with 6 obtain \<tau> where "resolve_all_h ?xs m \<sigma> = (Inl e, \<sigma> @ \<tau>)"
      by (auto dest: agrees_all_InlD)
    with Inl show ?thesis by (simp add: agrees_raise)
  next
    case (Inr ns)
    with 6 obtain rs \<tau> where out: "resolve_all_h ?xs m \<sigma> = (Inr rs, \<sigma> @ \<tau>)"
      and rs: "list_all2 (\<lambda>r n. length \<sigma> \<le> r \<and> r < length (\<sigma> @ \<tau>) \<and> read (\<sigma> @ \<tau>) (Ref r) = n) rs ns"
      by (auto dest: agrees_all_InrD)
    from rs have len: "length rs = length ns"
      by (rule list_all2_lengthD)
    show ?thesis
    proof (cases "length ns = 1")
      case True
      with len obtain r n where one: "rs = [r]" "ns = [n]"
        by (cases rs; cases ns) auto
      with rs show ?thesis
        by (simp add: out Inr agrees_def)
    next
      case False
      from rs have "list_all2 (\<lambda>r n. (length \<sigma> \<le> r \<and> r < length (\<sigma> @ \<tau>)) \<and> read (\<sigma> @ \<tau>) (Ref r) = n) rs ns"
        by (simp add: conj_assoc)
      then have "map (\<lambda>r. read (\<sigma> @ \<tau>) (Ref r)) rs = ns"
        by (rule read_refs)
      then have "map (\<lambda>(k, v). (k, read (\<sigma> @ \<tau>) v)) [(''oneOf'', Lst (map Ref rs))] =
                   [(''oneOf'', JArray ns)]"
        by (simp add: comp_def)
      from agrees_new_dict [OF this] show ?thesis
        using False len by (simp add: out Inr)
    qed
  qed
next
  case (7 uw m \<sigma>)
  show ?case
    using agrees_new_dict [of \<sigma> "[]" "[(''type'', Val (JString ''string''))]"
        "[(''type'', JString ''string'')]"]
    by (simp add: string_node_def)
next
  case (8 export anns m \<sigma>)
  show ?case
  proof (cases "export_node export")
    case (Inr node)
    then obtain kvs where node: "node = JObject kvs"
      by (auto dest: export_node_object)
    from agrees_new_dict [where \<sigma> = \<sigma> and \<tau> = "[]", OF read_members_of [where kvs = kvs]]
    show ?thesis by (simp add: Inr node)
  next
    case (Inl e)
    show ?thesis
    proof (cases "e = TypeError")
      case False
      with Inl show ?thesis using agrees_raise [of \<sigma> e "[]"] by simp
    next
      case True
      with Inl 8 have "agrees_all \<sigma> (resolve_all_h (map snd anns) m \<sigma>)
                         (collect (map (\<lambda>a. get_type_info a m) (map snd anns)))"
        by simp
      from agrees_annotations [OF this, of "map fst anns"] show ?thesis
        using Inl True unfolding get_type_info_h.simps get_type_info.simps Let_def by simp
    qed
  qed
next
  case (9 fs m \<sigma>)
  have pure: "map (\<lambda>f. get_type_info (ftype f) m) fs = map (\<lambda>a. get_type_info a m) (map ftype fs)"
    by simp
  show ?case
  proof (cases "collect (map (\<lambda>a. get_type_info a m) (map ftype fs))")
    case (Inl e)
    with 9 obtain \<tau> where "resolve_all_h (map ftype fs) m \<sigma> = (Inl e, \<sigma> @ \<tau>)"
      by (auto dest: agrees_all_InlD)
    with Inl show ?thesis by (simp add: comp_def agrees_raise)
  next
    case (Inr ns)
    with 9 obtain rs \<tau> where out: "resolve_all_h (map ftype fs) m \<sigma> = (Inr rs, \<sigma> @ \<tau>)"
      and rs: "list_all2 (\<lambda>r n. length \<sigma> \<le> r \<and> r < length (\<sigma> @ \<tau>) \<and> read (\<sigma> @ \<tau>) (Ref r) = n) rs ns"
      by (auto dest: agrees_all_InrD)
    from rs have "list_all2 (\<lambda>r n. (length \<sigma> \<le> r \<and> r < length (\<sigma> @ \<tau>)) \<and> read (\<sigma> @ \<tau>) (Ref r) = n) rs ns"
      by (simp add: conj_assoc)
    then have ns: "map (\<lambda>r. read (\<sigma> @ \<tau>) (Ref r)) rs = ns"
      by (rule read_refs)
    obtain properties required where loop: "dataclass_loop (zip fs (map Ref rs)) [] [] = (properties, required)"
      by (cases "dataclass_loop (zip fs (map Ref rs)) [] []")
    have "zip fs ns = map (\<lambda>(f, v). (f, read (\<sigma> @ \<tau>) v)) (zip fs (map Ref rs))"
      unfolding ns [symmetric] by (simp add: zip_map2 case_prod_beta)
    then have ploop: "dataclass_loop (zip fs ns) [] [] =
                 (map (\<lambda>(k, v). (k, read (\<sigma> @ \<tau>) v)) properties, required)"
      using dataclass_loop_map_values [of "read (\<sigma> @ \<tau>)" "zip fs (map Ref rs)" "[]" "[]"] loop
      by simp
    from Inr have Inr': "collect (map (\<lambda>f. get_type_info (ftype f) m) fs) = Inr ns"
      by (simp add: comp_def)
    from agrees_new_object [of \<sigma> \<tau> properties _ required, OF refl] show ?thesis
      by (simp add: out Inr' loop ploop)
  qed
next
  case (10 anns required_keys m \<sigma>)
  from agrees_annotations [OF 10] show ?case
    unfolding get_type_info_h.simps get_type_info.simps Let_def by simp
next
  case (11 anns required_keys m \<sigma>)
  from agrees_annotations [OF 11] show ?case
    unfolding get_type_info_h.simps get_type_info.simps Let_def by simp
next
  case (12 m \<sigma>)
  show ?case
    using agrees_new_dict [of \<sigma> "[]" "[(''type'', Val (JString ''string''))]"
        "[(''type'', JString ''string'')]"]
    by (simp add: string_node_def)
next
  case (13 m \<sigma>)
  show ?case by (simp add: agrees_all_def)
next
  case (14 a as m \<sigma>)
  show ?case
  proof (cases "get_type_info a m")
    case (Inl e)
    with 14(1) obtain \<tau> where "get_type_info_h a m \<sigma> = (Inl e, \<sigma> @ \<tau>)"
      by (auto dest: agrees_InlD)
    with Inl show ?thesis by (simp add: agrees_all_def)
  next
    case (Inr n)
    with 14(1) obtain r \<tau> where out: "get_type_info_h a m \<sigma> = (Inr r, \<sigma> @ \<tau>)"
      and r: "length \<sigma> \<le> r" "r < length (\<sigma> @ \<tau>)" "read (\<sigma> @ \<tau>) (Ref r) = n"
      by (auto dest: agrees_InrD)
    from 14(2) [OF out [symmetric] refl]
    have IH: "agrees_all (\<sigma> @ \<tau>) (resolve_all_h as m (\<sigma> @ \<tau>))
                (collect (map (\<lambda>a. get_type_info a m) as))" .
    show ?thesis
    proof (cases "collect (map (\<lambda>a. get_type_info a m) as)")
      case (Inl e)
      with IH obtain \<tau>' where "resolve_all_h as m (\<sigma> @ \<tau>) = (Inl e, (\<sigma> @ \<tau>) @ \<tau>')"
        by (auto dest: agrees_all_InlD)
      with Inl Inr out show ?thesis by (simp add: agrees_all_def)
    next
      case ns: (Inr ns)
      with IH obtain rs \<tau>' where out': "resolve_all_h as m (\<sigma> @ \<tau>) = (Inr rs, (\<sigma> @ \<tau>) @ \<tau>')"
        and rs: "list_all2 (\<lambda>r n. length (\<sigma> @ \<tau>) \<le> r \<and> r < length ((\<sigma> @ \<tau>) @ \<tau>')
                              \<and> read ((\<sigma> @ \<tau>) @ \<tau>') (Ref r) = n) rs ns"
        by (auto dest: agrees_all_InrD)
      from rs have rs': "list_all2 (\<lambda>r n. length \<sigma> \<le> r \<and> r < length (\<sigma> @ \<tau> @ \<tau>')
                              \<and> read (\<sigma> @ \<tau> @ \<tau>') (Ref r) = n) rs ns"
        by (rule list_all2_mono) auto
      have "read (\<sigma> @ \<tau> @ \<tau>') (Ref r) = n"
        using read_Ref_append [of r "\<sigma> @ \<tau>" \<tau>'] r by simp
      with r rs' show ?thesis
        by (simp add: out out' Inr ns agrees_all_def)
    qed
  qed
qed (simp_all add: agrees_def)


subsection \<open>The deletion and the second call\<close>

lemma map_of_map_values:
  "map_of (map (\<lambda>(k, v). (k, g v)) al) key = map_option g (map_of al key)"
  by (induction al) auto

lemma delete_map_values:
  "AList.delete key (map (\<lambda>(k, v). (k, g v)) al) = map (\<lambda>(k, v). (k, g v)) (AList.delete key al)"
  by (induction al) auto

lemma length_del [simp]: "length (del_additionalProperties_h r \<sigma>) = length \<sigma>"
  by (simp add: del_additionalProperties_h_def)

lemma read_del_same:
  "r < length \<sigma> \<Longrightarrow>
   read (del_additionalProperties_h r \<sigma>) (Ref r) = del_additionalProperties (read \<sigma> (Ref r))"
  by (simp add: del_additionalProperties_h_def read.simps(3) map_of_map_values delete_map_values)

lemma read_del_older:
  "t < r \<Longrightarrow> read (del_additionalProperties_h r \<sigma>) (Ref t) = read \<sigma> (Ref t)"
  by (simp add: del_additionalProperties_h_def read.simps(3))

lemma two_calls:
  assumes n: "get_type_info a m = Inr n"
  shows "\<exists>r1 \<tau>1 r2 \<tau>2.
      get_type_info_h a m \<sigma> = (Inr r1, \<sigma> @ \<tau>1)
      \<and> length \<sigma> \<le> r1 \<and> r1 < length (\<sigma> @ \<tau>1)
      \<and> read (\<sigma> @ \<tau>1) (Ref r1) = n
      \<and> get_type_info_h a m (del_additionalProperties_h r1 (\<sigma> @ \<tau>1)) =
          (Inr r2, del_additionalProperties_h r1 (\<sigma> @ \<tau>1) @ \<tau>2)
      \<and> length (\<sigma> @ \<tau>1) \<le> r2 \<and> r2 < length (\<sigma> @ \<tau>1 @ \<tau>2)
      \<and> read (del_additionalProperties_h r1 (\<sigma> @ \<tau>1) @ \<tau>2) (Ref r2) = n
      \<and> read (del_additionalProperties_h r1 (\<sigma> @ \<tau>1) @ \<tau>2) (Ref r1) = del_additionalProperties n"
proof -
  from resolver_on_store(1) [of \<sigma> a m] n obtain r1 \<tau>1 where
    out1: "get_type_info_h a m \<sigma> = (Inr r1, \<sigma> @ \<tau>1)"
    and r1: "length \<sigma> \<le> r1" "r1 < length (\<sigma> @ \<tau>1)" "read (\<sigma> @ \<tau>1) (Ref r1) = n"
    by (auto dest: agrees_InrD)
  let ?\<sigma>2 = "del_additionalProperties_h r1 (\<sigma> @ \<tau>1)"
  from resolver_on_store(1) [of ?\<sigma>2 a m] n obtain r2 \<tau>2 where
    out2: "get_type_info_h a m ?\<sigma>2 = (Inr r2, ?\<sigma>2 @ \<tau>2)"
    and r2: "length ?\<sigma>2 \<le> r2" "r2 < length (?\<sigma>2 @ \<tau>2)" "read (?\<sigma>2 @ \<tau>2) (Ref r2) = n"
    by (auto dest: agrees_InrD)
  have "read (?\<sigma>2 @ \<tau>2) (Ref r1) = read ?\<sigma>2 (Ref r1)"
    using r1 by (intro read_Ref_append) simp
  also have "\<dots> = del_additionalProperties n"
    using r1 read_del_same [of r1 "\<sigma> @ \<tau>1"] by simp
  finally have "read (?\<sigma>2 @ \<tau>2) (Ref r1) = del_additionalProperties n" .
  with out1 r1 out2 r2 show ?thesis by auto
qed

lemma read_older:
  assumes "t < length \<sigma>" and "length \<sigma> \<le> r"
  shows "read (del_additionalProperties_h r (\<sigma> @ \<tau>1) @ \<tau>2) (Ref t) = read \<sigma> (Ref t)"
proof -
  have "read (del_additionalProperties_h r (\<sigma> @ \<tau>1) @ \<tau>2) (Ref t) =
          read (del_additionalProperties_h r (\<sigma> @ \<tau>1)) (Ref t)"
    using assms by (intro read_Ref_append) simp
  also have "\<dots> = read (\<sigma> @ \<tau>1) (Ref t)"
    using assms by (intro read_del_older) simp
  also have "\<dots> = read \<sigma> (Ref t)"
    using assms by (intro read_Ref_append)
  finally show ?thesis .
qed

lemma set_update_subset: "set (AList.update k v al) \<subseteq> insert (k, v) (set al)"
  by (induction al) auto

lemma parameters_loop_on_store:
  assumes "\<forall>(k, v)\<in>set acc. \<exists>t. v = Ref t \<and> t < length \<sigma>"
  shows "(\<forall>e. parameters_loop ps (map (\<lambda>(k, v). (k, read \<sigma> v)) acc) = Inl e \<longrightarrow>
            fst (parameters_loop_h ps acc \<sigma>) = Inl e)
       \<and> (\<forall>props. parameters_loop ps (map (\<lambda>(k, v). (k, read \<sigma> v)) acc) = Inr props \<longrightarrow>
            (\<exists>hprops \<sigma>'. parameters_loop_h ps acc \<sigma> = (Inr hprops, \<sigma>')
                \<and> map (\<lambda>(k, v). (k, read \<sigma>' v)) hprops = props))"
  using assms
proof (induction ps arbitrary: acc \<sigma>)
  case Nil
  then show ?case by simp
next
  case (Cons p ps)
  show ?case
  proof (cases "param_name p = ''context_variables''")
    case True
    with Cons.IH [OF Cons.prems] show ?thesis by simp
  next
    case False
    let ?a = "param_annotation p"
    show ?thesis
    proof (cases "get_type_info ?a type_map")
      case (Inl e)
      with resolver_on_store(1) [of \<sigma> ?a type_map] obtain \<tau> where
        "get_type_info_h ?a type_map \<sigma> = (Inl e, \<sigma> @ \<tau>)"
        by (auto dest: agrees_InlD)
      with Inl False show ?thesis by simp
    next
      case (Inr n)
      from two_calls [OF Inr, of \<sigma>] obtain r1 \<tau>1 r2 \<tau>2 where
        out1: "get_type_info_h ?a type_map \<sigma> = (Inr r1, \<sigma> @ \<tau>1)"
        and r1: "length \<sigma> \<le> r1"
        and out2: "get_type_info_h ?a type_map (del_additionalProperties_h r1 (\<sigma> @ \<tau>1)) =
                     (Inr r2, del_additionalProperties_h r1 (\<sigma> @ \<tau>1) @ \<tau>2)"
        and r2: "r2 < length (\<sigma> @ \<tau>1 @ \<tau>2)"
        and read2: "read (del_additionalProperties_h r1 (\<sigma> @ \<tau>1) @ \<tau>2) (Ref r2) = n"
        by blast
      let ?\<sigma>3 = "del_additionalProperties_h r1 (\<sigma> @ \<tau>1) @ \<tau>2"
      let ?acc = "AList.update (param_name p) (Ref r2) acc"
      have older: "read ?\<sigma>3 v = read \<sigma> v" if "(k, v) \<in> set acc" for k v
      proof -
        from that Cons.prems obtain t where "v = Ref t" "t < length \<sigma>" by auto
        with r1 show ?thesis by (simp add: read_older)
      qed
      have inv: "\<forall>(k, v)\<in>set ?acc. \<exists>t. v = Ref t \<and> t < length ?\<sigma>3"
      proof (clarify)
        fix k v assume "(k, v) \<in> set ?acc"
        with set_update_subset [of "param_name p" "Ref r2" acc]
        have "(k, v) = (param_name p, Ref r2) \<or> (k, v) \<in> set acc" by auto
        then show "\<exists>t. v = Ref t \<and> t < length ?\<sigma>3"
        proof
          assume "(k, v) = (param_name p, Ref r2)"
          with r2 show ?thesis by simp
        next
          assume "(k, v) \<in> set acc"
          with Cons.prems obtain t where "v = Ref t" "t < length \<sigma>" by auto
          then show ?thesis by simp
        qed
      qed
      have same: "map (\<lambda>(k, v). (k, read ?\<sigma>3 v)) acc = map (\<lambda>(k, v). (k, read \<sigma> v)) acc"
        using older by (intro map_cong) auto
      have "map (\<lambda>(k, v). (k, read ?\<sigma>3 v)) ?acc =
              AList.update (param_name p) (read ?\<sigma>3 (Ref r2)) (map (\<lambda>(k, v). (k, read ?\<sigma>3 v)) acc)"
        by (rule update_map_values [symmetric])
      also have "\<dots> = AList.update (param_name p) n (map (\<lambda>(k, v). (k, read \<sigma> v)) acc)"
        by (simp only: same read2)
      finally have acc: "map (\<lambda>(k, v). (k, read ?\<sigma>3 v)) ?acc =
                   AList.update (param_name p) n (map (\<lambda>(k, v). (k, read \<sigma> v)) acc)" .
      from Cons.IH [OF inv] acc show ?thesis
        using False by (simp add: Inr out1 out2 Let_def)
    qed
  qed
qed

lemma function_to_json_on_store: "function_to_json_h f \<sigma> = function_to_json f"
proof (cases "func_signature f")
  case None
  then show ?thesis by (simp add: function_to_json_h_def function_to_json_def)
next
  case (Some ps)
  from parameters_loop_on_store [of "[]" \<sigma> ps]
  have sim: "(\<forall>e. parameters_loop ps [] = Inl e \<longrightarrow> fst (parameters_loop_h ps [] \<sigma>) = Inl e)
       \<and> (\<forall>props. parameters_loop ps [] = Inr props \<longrightarrow>
            (\<exists>hprops \<sigma>'. parameters_loop_h ps [] \<sigma> = (Inr hprops, \<sigma>')
                \<and> map (\<lambda>(k, v). (k, read \<sigma>' v)) hprops = props))"
    by simp
  show ?thesis
  proof (cases "parameters_loop ps []")
    case (Inl e)
    with sim have "fst (parameters_loop_h ps [] \<sigma>) = Inl e" by simp
    then obtain \<sigma>' where "parameters_loop_h ps [] \<sigma> = (Inl e, \<sigma>')"
      by (cases "parameters_loop_h ps [] \<sigma>") simp
    with Inl Some show ?thesis
      by (simp add: function_to_json_h_def function_to_json_def)
  next
    case (Inr props)
    with sim obtain hprops \<sigma>' where "parameters_loop_h ps [] \<sigma> = (Inr hprops, \<sigma>')"
      and "map (\<lambda>(k, v). (k, read \<sigma>' v)) hprops = props"
      by auto
    with Inr Some show ?thesis
      by (simp add: function_to_json_h_def function_to_json_def)
  qed
qed


section \<open>The claims\<close>

text \<open>
  Claim C1, evaluated at \<^verbatim>\<open>def f(context_variables: dict, query: str)\<close>. The loop of lines
  385-387 skips the reserved name, so \<^verbatim>\<open>properties\<close> holds \<^verbatim>\<open>query\<close> only; the comprehension
  of lines 398-402 does not skip it, so \<^verbatim>\<open>required\<close> lists \<^verbatim>\<open>context_variables\<close>, a name that
  is no property of the schema.
\<close>

theorem required_lists_context_variables:
  "function_to_json
     \<lparr>func_name = ''f'', func_doc = None,
      func_signature = Some
        [\<lparr>param_name = ''context_variables'', param_annotation = Builtin TDict, param_default = EMPTY\<rparr>,
         \<lparr>param_name = ''query'', param_annotation = Builtin TStr, param_default = EMPTY\<rparr>]\<rparr> =
   Inr (JObject [(''type'', JString ''function''),
                 (''function'', JObject
                    [(''name'', JString ''f''),
                     (''description'', JString []),
                     (''parameters'', JObject
                        [(''type'', JString ''object''),
                         (''properties'', JObject [(''query'', JObject [(''type'', JString ''string'')])]),
                         (''required'', JArray [JString ''context_variables'', JString ''query''])])])])"
  by (simp add: function_to_json_def descriptor_def type_map_def)

text \<open>
  Claim C2. Resolving a Union resolves, in declaration order, every member that is not
  \<^verbatim>\<open>type(None)\<close>. When exactly one member remains the result is that member's result (so
  \<^verbatim>\<open>Union[T, None]\<close> resolves as \<^verbatim>\<open>T\<close>); when the remaining members resolve to the nodes
  \<open>ns\<close>, more than one, the result is \<^verbatim>\<open>{"oneOf": ns}\<close>, in order and with repetitions kept;
  \<^verbatim>\<open>Union[str, int]\<close> resolves to \<^verbatim>\<open>{"oneOf": [{"type": "string"}, {"type": "integer"}]}\<close>.
\<close>

theorem union_resolution:
  "(filter (\<lambda>a. a \<noteq> Builtin TNoneType) args1 = [t1] \<longrightarrow>
      get_type_info (Generic OUnion args1) m = get_type_info t1 m)
   \<and> (t \<noteq> Builtin TNoneType \<longrightarrow>
      get_type_info (Generic OUnion [t, Builtin TNoneType]) m = get_type_info t m)
   \<and> (map (\<lambda>a. get_type_info a m) (filter (\<lambda>a. a \<noteq> Builtin TNoneType) args) = map Inr ns
        \<and> 1 < length ns \<longrightarrow>
      get_type_info (Generic OUnion args) m = Inr (JObject [(''oneOf'', JArray ns)]))
   \<and> get_type_info (Generic OUnion [Builtin TStr, Builtin TInt]) type_map =
       Inr (JObject [(''oneOf'', JArray [JObject [(''type'', JString ''string'')],
                                         JObject [(''type'', JString ''integer'')]])])"
proof (intro conjI impI)
  assume "filter (\<lambda>a. a \<noteq> Builtin TNoneType) args1 = [t1]"
  then show "get_type_info (Generic OUnion args1) m = get_type_info t1 m"
    by (cases "get_type_info t1 m") simp_all
next
  assume "t \<noteq> Builtin TNoneType"
  then show "get_type_info (Generic OUnion [t, Builtin TNoneType]) m = get_type_info t m"
    by (cases "get_type_info t m") simp_all
next
  assume "map (\<lambda>a. get_type_info a m) (filter (\<lambda>a. a \<noteq> Builtin TNoneType) args) = map Inr ns
            \<and> 1 < length ns"
  then show "get_type_info (Generic OUnion args) m = Inr (JObject [(''oneOf'', JArray ns)])"
    by (simp add: collect_map_Inr)
next
  show "get_type_info (Generic OUnion [Builtin TStr, Builtin TInt]) type_map =
       Inr (JObject [(''oneOf'', JArray [JObject [(''type'', JString ''string'')],
                                         JObject [(''type'', JString ''integer'')]])])"
    by (simp add: type_map_def)
qed

theorem union_resolution_witness:
  "get_type_info (Generic OUnion [Generic OList [Builtin TInt], Builtin TNoneType]) type_map =
     get_type_info (Generic OList [Builtin TInt]) type_map
   \<and> get_type_info (Generic OUnion [Builtin TNoneType, Builtin TStr, Generic OOther [Builtin TInt], Other])
       type_map =
     Inr (JObject [(''oneOf'', JArray [JObject [(''type'', JString ''string'')],
                                       JObject [(''type'', JString ''string'')],
                                       JObject [(''type'', JString ''string'')]])])"
  using union_resolution [of "[Generic OList [Builtin TInt], Builtin TNoneType]"
      "Generic OList [Builtin TInt]" type_map "Generic OList [Builtin TInt]"
      "[Builtin TNoneType, Builtin TStr, Generic OOther [Builtin TInt], Other]"
      "[JObject [(''type'', JString ''string'')], JObject [(''type'', JString ''string'')],
        JObject [(''type'', JString ''string'')]]"]
  by (simp add: type_map_def string_node_def)







text \<open>
  Claim C5. For a dataclass whose field types resolve to \<open>ts\<close>, the properties are the
  field names paired with \<open>ts\<close> in declaration order, and \<^verbatim>\<open>required\<close> lists exactly the
  fields that have neither a default nor a default factory. For a \<^verbatim>\<open>TypedDict\<close> whose
  annotated types resolve to \<open>us\<close>, the properties are the keys paired with
  \<open>us\<close> in declaration order and \<^verbatim>\<open>required\<close> is \<^verbatim>\<open>__required_keys__\<close> when the object has
  it, otherwise all the keys. A dataclass with field \<^verbatim>\<open>a\<close> without default and field \<^verbatim>\<open>b\<close>
  with default 0 has \<^verbatim>\<open>required == ["a"]\<close>. (The names of a dataclass's fields, and the
  keys of a dict, are distinct.)
\<close>

theorem record_extraction:
  "(distinct (map fname fs) \<and> map (\<lambda>f. get_type_info (ftype f) m) fs = map Inr ts \<longrightarrow>
      get_type_info (Dataclass fs) m =
        Inr (object_node (zip (map fname fs) ts)
               (map fname (filter (\<lambda>f. fdefault f = MISSING \<and> fdefault_factory f = MISSING) fs))))
   \<and> (distinct (map fst anns) \<and> map (\<lambda>(key, t). get_type_info t m) anns = map Inr us \<longrightarrow>
      get_type_info (AnnotatedClass anns required_keys) m =
        Inr (object_node (zip (map fst anns) us)
               (case required_keys of Some ks \<Rightarrow> ks | None \<Rightarrow> map fst anns)))
   \<and> get_type_info (Dataclass [Field ''a'' (Builtin TInt) MISSING MISSING,
                                Field ''b'' (Builtin TInt) (PyInt 0) MISSING]) type_map =
       Inr (JObject [(''type'', JString ''object''),
                     (''properties'', JObject [(''a'', JObject [(''type'', JString ''integer'')]),
                                               (''b'', JObject [(''type'', JString ''integer'')])]),
                     (''required'', JArray [JString ''a'']),
                     (''additionalProperties'', JBool False)])"
proof (intro conjI impI)
  assume a: "distinct (map fname fs) \<and> map (\<lambda>f. get_type_info (ftype f) m) fs = map Inr ts"
  then have len: "length fs = length ts"
    by (metis length_map)
  from a have c: "collect (map (\<lambda>f. get_type_info (ftype f) m) fs) = Inr ts"
    by (simp add: collect_map_Inr)
  have "dataclass_loop (zip fs ts) [] [] =
          ([] @ zip (map fname fs) ts,
           [] @ map fname (filter (\<lambda>f. fdefault f = MISSING \<and> fdefault_factory f = MISSING) fs))"
    using a by (intro dataclass_loop_append [OF len]) simp_all
  with c show "get_type_info (Dataclass fs) m =
        Inr (object_node (zip (map fname fs) ts)
               (map fname (filter (\<lambda>f. fdefault f = MISSING \<and> fdefault_factory f = MISSING) fs)))"
    by simp
next
  assume a: "distinct (map fst anns) \<and> map (\<lambda>(key, t). get_type_info t m) anns = map Inr us"
  then have len: "length anns = length us"
    by (metis length_map)
  from a have c: "collect (map (\<lambda>(key, t). get_type_info t m) anns) = Inr us"
    by (simp add: collect_map_Inr)
  have d: "distinct (map fst (zip (map fst anns) us))"
    using a len by simp
  have "annotations_loop (zip (map fst anns) us) [] = [] @ zip (map fst anns) us"
    using d by (intro annotations_loop_append) simp_all
  with c show "get_type_info (AnnotatedClass anns required_keys) m =
        Inr (object_node (zip (map fst anns) us)
               (case required_keys of Some ks \<Rightarrow> ks | None \<Rightarrow> map fst anns))"
    by simp
next
  show "get_type_info (Dataclass [Field ''a'' (Builtin TInt) MISSING MISSING,
                                Field ''b'' (Builtin TInt) (PyInt 0) MISSING]) type_map =
       Inr (JObject [(''type'', JString ''object''),
                     (''properties'', JObject [(''a'', JObject [(''type'', JString ''integer'')]),
                                               (''b'', JObject [(''type'', JString ''integer'')])]),
                     (''required'', JArray [JString ''a'']),
                     (''additionalProperties'', JBool False)])"
    by (simp add: type_map_def object_node_def)
qed

theorem record_extraction_witness:
  "get_type_info (Dataclass [Field ''n'' (Builtin TStr) MISSING MISSING,
                             Field ''tags'' (Generic OList [Builtin TStr]) MISSING (PyCallable ''list''),
                             Field ''k'' (Builtin TBool) (PyBool False) MISSING]) type_map =
     Inr (object_node [(''n'', JObject [(''type'', JString ''string'')]),
                       (''tags'', JObject [(''type'', JString ''array''),
                                           (''items'', JObject [(''type'', JString ''string'')])]),
                       (''k'', JObject [(''type'', JString ''boolean'')])]
            [''n''])
   \<and> get_type_info (AnnotatedClass [(''x'', Builtin TInt), (''y'', Builtin TFloat)] (Some [''y'']))
       type_map =
     Inr (object_node [(''x'', JObject [(''type'', JString ''integer'')]),
                       (''y'', JObject [(''type'', JString ''number'')])] [''y''])
   \<and> get_type_info (AnnotatedClass [(''x'', Builtin TInt), (''y'', Builtin TFloat)] None) type_map =
     Inr (object_node [(''x'', JObject [(''type'', JString ''integer'')]),
                       (''y'', JObject [(''type'', JString ''number'')])] [''x'', ''y''])"
  using record_extraction [of
      "[Field ''n'' (Builtin TStr) MISSING MISSING,
        Field ''tags'' (Generic OList [Builtin TStr]) MISSING (PyCallable ''list''),
        Field ''k'' (Builtin TBool) (PyBool False) MISSING]"
      type_map
      "[JObject [(''type'', JString ''string'')],
        JObject [(''type'', JString ''array''), (''items'', JObject [(''type'', JString ''string'')])],
        JObject [(''type'', JString ''boolean'')]]"
      "[(''x'', Builtin TInt), (''y'', Builtin TFloat)]"
      "[JObject [(''type'', JString ''integer'')], JObject [(''type'', JString ''number'')]]"
      "Some [''y'']"]
    record_extraction [of "[]" type_map "[]"
      "[(''x'', Builtin TInt), (''y'', Builtin TFloat)]"
      "[JObject [(''type'', JString ''integer'')], JObject [(''type'', JString ''number'')]]"
      None]
  by (simp add: type_map_def)

text \<open>
  Claim C6, evaluated at the annotations \<^verbatim>\<open>typing.List\<close> and \<^verbatim>\<open>typing.Dict\<close> written
  without a subscript: \<^verbatim>\<open>get_origin\<close> is \<^verbatim>\<open>list\<close> (\<^verbatim>\<open>dict\<close>) and \<^verbatim>\<open>get_args\<close> is the empty
  tuple, so \<^verbatim>\<open>args[0]\<close> raises \<^verbatim>\<open>IndexError\<close> (line 211) and the unpacking of line 219 raises
  \<^verbatim>\<open>ValueError\<close>; neither reaches the fallback of line 330.
\<close>

theorem unsubscripted_generic_raises:
  "get_type_info (Generic OList []) type_map = Inl IndexError
   \<and> get_type_info (Generic ODict []) type_map = Inl UnpackError"
  by simp

text \<open>
  Claim C7. \<^verbatim>\<open>search(query: str, limit: int = 10)\<close> with docstring \<^verbatim>\<open>"Searches."\<close> compiles
  to the descriptor of the specification, and every descriptor that \<^verbatim>\<open>function_to_json\<close>
  returns has the callable's name, its docstring (the empty string when it has none) and
  an object schema with \<^verbatim>\<open>properties\<close> and \<^verbatim>\<open>required\<close>, under these key names.
\<close>

theorem descriptor_shape:
  "function_to_json
     \<lparr>func_name = ''search'', func_doc = Some ''Searches.'',
      func_signature = Some
        [\<lparr>param_name = ''query'', param_annotation = Builtin TStr, param_default = EMPTY\<rparr>,
         \<lparr>param_name = ''limit'', param_annotation = Builtin TInt, param_default = PyInt 10\<rparr>]\<rparr> =
   Inr (JObject [(''type'', JString ''function''),
                 (''function'', JObject
                    [(''name'', JString ''search''),
                     (''description'', JString ''Searches.''),
                     (''parameters'', JObject
                        [(''type'', JString ''object''),
                         (''properties'', JObject [(''query'', JObject [(''type'', JString ''string'')]),
                                                   (''limit'', JObject [(''type'', JString ''integer'')])]),
                         (''required'', JArray [JString ''query''])])])])
   \<and> (function_to_json f = Inr d \<longrightarrow>
        (\<exists>properties required.
           d = JObject [(''type'', JString ''function''),
                        (''function'', JObject
                           [(''name'', JString (func_name f)),
                            (''description'',
                               JString (case func_doc f of None \<Rightarrow> [] | Some doc \<Rightarrow> doc)),
                            (''parameters'', JObject
                               [(''type'', JString ''object''),
                                (''properties'', JObject properties),
                                (''required'', JArray required)])])]))"
  by (auto simp: function_to_json_def descriptor_def type_map_def split: option.splits sum.splits)

theorem descriptor_shape_witness:
  "\<exists>properties required.
     JObject [(''type'', JString ''function''),
              (''function'', JObject
                 [(''name'', JString ''ping''),
                  (''description'', JString []),
                  (''parameters'', JObject
                     [(''type'', JString ''object''),
                      (''properties'', JObject [(''host'', JObject [(''type'', JString ''string'')])]),
                      (''required'', JArray [JString ''host''])])])] =
     JObject [(''type'', JString ''function''),
              (''function'', JObject
                 [(''name'', JString ''ping''),
                  (''description'', JString []),
                  (''parameters'', JObject
                     [(''type'', JString ''object''),
                      (''properties'', JObject properties),
                      (''required'', JArray required)])])]"
proof -
  have "function_to_json
          \<lparr>func_name = ''ping'', func_doc = None,
           func_signature = Some
             [\<lparr>param_name = ''host'', param_annotation = Builtin TStr, param_default = EMPTY\<rparr>]\<rparr> =
        Inr (JObject [(''type'', JString ''function''),
              (''function'', JObject
                 [(''name'', JString ''ping''),
                  (''description'', JString []),
                  (''parameters'', JObject
                     [(''type'', JString ''object''),
                      (''properties'', JObject [(''host'', JObject [(''type'', JString ''string'')])]),
                      (''required'', JArray [JString ''host''])])])])"
    by (simp add: function_to_json_def descriptor_def type_map_def)
  with descriptor_shape [of
      "\<lparr>func_name = ''ping'', func_doc = None,
        func_signature = Some
          [\<lparr>param_name = ''host'', param_annotation = Builtin TStr, param_default = EMPTY\<rparr>]\<rparr>"]
  show ?thesis by simp
qed

text \<open>
  Claim C8. For a pydantic model whose schema export returns, with property schemas that
  are JSON objects, the node holds the properties and the required list of the exported
  schema, and each property schema that is directly a \<^verbatim>\<open>$ref\<close> to a named definition of the
  schema is replaced by the body of that definition. One level only: a body that is
  itself a reference stays a reference, and a reference below the top level of a property
  schema is not touched. (The keys of a dict are distinct.)
\<close>

theorem validated_record_extraction:
  "(distinct (map fst properties)
      \<and> (definitions \<noteq> [] \<longrightarrow> (\<forall>(prop_name, prop_schema)\<in>set properties. object_schema prop_schema))
      \<longrightarrow>
      get_type_info (PydanticModel (Schema properties required definitions) anns) m =
        Inr (JObject
          [(''type'', JString ''object''),
           (''properties'', JObject
              (map (\<lambda>(prop_name, prop_schema). (prop_name, inline_ref definitions prop_schema))
                 properties)),
           (''required'', JArray (map JString required)),
           (''additionalProperties'', JBool False)]))
   \<and> get_type_info
        (PydanticModel
           (Schema [(''a'', JObject [(''$ref'', JString ''#/$defs/A'')])] [''a'']
              [(''A'', JObject [(''$ref'', JString ''#/$defs/B'')]),
               (''B'', JObject [(''type'', JString ''integer'')])]) anns) m =
       Inr (JObject
          [(''type'', JString ''object''),
           (''properties'', JObject [(''a'', JObject [(''$ref'', JString ''#/$defs/B'')])]),
           (''required'', JArray [JString ''a'']),
           (''additionalProperties'', JBool False)])
   \<and> get_type_info
        (PydanticModel
           (Schema [(''xs'', JObject [(''type'', JString ''array''),
                                      (''items'', JObject [(''$ref'', JString ''#/$defs/B'')])])] []
              [(''B'', JObject [(''type'', JString ''integer'')])]) anns) m =
       Inr (JObject
          [(''type'', JString ''object''),
           (''properties'', JObject
              [(''xs'', JObject [(''type'', JString ''array''),
                                 (''items'', JObject [(''$ref'', JString ''#/$defs/B'')])])]),
           (''required'', JArray []),
           (''additionalProperties'', JBool False)])"
proof (intro conjI impI)
  assume a: "distinct (map fst properties)
      \<and> (definitions \<noteq> [] \<longrightarrow> (\<forall>(prop_name, prop_schema)\<in>set properties. object_schema prop_schema))"
  show "get_type_info (PydanticModel (Schema properties required definitions) anns) m =
        Inr (JObject
          [(''type'', JString ''object''),
           (''properties'', JObject
              (map (\<lambda>(prop_name, prop_schema). (prop_name, inline_ref definitions prop_schema))
                 properties)),
           (''required'', JArray (map JString required)),
           (''additionalProperties'', JBool False)])"
  proof (cases "definitions = []")
    case True
    then show ?thesis
      by (simp add: inline_ref_no_defs object_node_def del: inline_ref.simps)
  next
    case False
    with a have "expand_refs definitions properties ([] @ properties) =
          Inr ([] @ map (\<lambda>(k, s). (k, inline_ref definitions s)) properties)"
      by (intro expand_refs_map) simp_all
    with False show ?thesis
      by (simp add: object_node_def del: inline_ref.simps)
  qed
qed (simp_all add: object_node_def)

theorem validated_record_extraction_witness:
  "get_type_info
     (PydanticModel
        (Schema [(''name'', JObject [(''type'', JString ''string'')]),
                 (''home'', JObject [(''$ref'', JString ''#/$defs/Address'')]),
                 (''pet'', JObject [(''$ref'', JString ''#/$defs/Pet'')])]
           [''name'', ''home'']
           [(''Address'', JObject [(''type'', JString ''object''),
                                   (''properties'', JObject [(''city'', JObject [(''type'', JString ''string'')])])])])
        [(''name'', Builtin TStr), (''home'', Other), (''pet'', Other)])
     type_map =
   Inr (JObject
          [(''type'', JString ''object''),
           (''properties'', JObject
              [(''name'', JObject [(''type'', JString ''string'')]),
               (''home'', JObject [(''type'', JString ''object''),
                                   (''properties'', JObject [(''city'', JObject [(''type'', JString ''string'')])])]),
               (''pet'', JObject [(''$ref'', JString ''#/$defs/Pet'')])]),
           (''required'', JArray [JString ''name'', JString ''home'']),
           (''additionalProperties'', JBool False)])"
  using validated_record_extraction [of
      "[(''name'', JObject [(''type'', JString ''string'')]),
        (''home'', JObject [(''$ref'', JString ''#/$defs/Address'')]),
        (''pet'', JObject [(''$ref'', JString ''#/$defs/Pet'')])]"
      "[(''Address'', JObject [(''type'', JString ''object''),
                               (''properties'', JObject [(''city'', JObject [(''type'', JString ''string'')])])])]"
      "[''name'', ''home'']"
      "[(''name'', Builtin TStr), (''home'', Other), (''pet'', Other)]"
      type_map]
  by simp

text \<open>
  Claim C9 as first stated leaves no record-shaped node of the output without
  \<^verbatim>\<open>"additionalProperties": False\<close>. For a pydantic model \<^verbatim>\<open>Person\<close> with a field \<^verbatim>\<open>home\<close> of
  the pydantic model \<^verbatim>\<open>Address\<close>, lines 264-268 put the exported definition of \<^verbatim>\<open>Address\<close>
  in as it is: the node of \<^verbatim>\<open>Person\<close> has the member, the node of \<^verbatim>\<open>Address\<close> inside it has
  not.
\<close>

theorem nested_model_counterexample:
  "get_type_info
     (PydanticModel
        (Schema [(''home'', JObject [(''$ref'', JString ''#/$defs/Address'')])] [''home'']
           [(''Address'', JObject
               [(''properties'', JObject [(''city'', JObject [(''type'', JString ''string'')])]),
                (''required'', JArray [JString ''city'']),
                (''type'', JString ''object'')])])
        [(''home'', PydanticModel
            (Schema [(''city'', JObject [(''type'', JString ''string'')])] [''city''] [])
            [(''city'', Builtin TStr)])]) type_map =
   Inr (JObject
          [(''type'', JString ''object''),
           (''properties'', JObject
              [(''home'', JObject
                  [(''properties'', JObject [(''city'', JObject [(''type'', JString ''string'')])]),
                   (''required'', JArray [JString ''city'']),
                   (''type'', JString ''object'')])]),
           (''required'', JArray [JString ''home'']),
           (''additionalProperties'', JBool False)])
   \<and> map_of [(''properties'', JObject [(''city'', JObject [(''type'', JString ''string'')])]),
             (''required'', JArray [JString ''city'']),
             (''type'', JString ''object'')] ''additionalProperties'' = None"
  by (simp add: object_node_def)

text \<open>
  Claim C9, as amended. The node that \<^verbatim>\<open>get_type_info\<close> returns for a record-kind
  annotation (pydantic model, dataclass, or \<^verbatim>\<open>TypedDict\<close>) is itself an object node with
  the member \<^verbatim>\<open>"additionalProperties": False\<close>, in all three variants.
\<close>

theorem record_nodes_closed:
  "record_kind R \<Longrightarrow> get_type_info R m = Inr node \<Longrightarrow>
     \<exists>members. node = JObject members
       \<and> map_of members ''type'' = Some (JString ''object'')
       \<and> map_of members ''additionalProperties'' = Some (JBool False)"
proof (cases R)
  case (PydanticModel export anns)
  assume "get_type_info R m = Inr node"
  with PydanticModel show ?thesis
    by (cases export)
       (auto simp: object_node_def Let_def split: sum.splits if_splits)
qed (auto simp: object_node_def Let_def split: sum.splits prod.splits)

theorem record_nodes_closed_witness:
  "(\<exists>node members.
       get_type_info (Dataclass [Field ''x'' (Builtin TInt) MISSING MISSING]) type_map = Inr node
       \<and> node = JObject members
       \<and> map_of members ''type'' = Some (JString ''object'')
       \<and> map_of members ''additionalProperties'' = Some (JBool False))
   \<and> (\<exists>node members.
       get_type_info (PydanticModel (Schema [(''p'', JObject [(''type'', JString ''string'')])] [] [])
                        [(''p'', Builtin TStr)]) type_map = Inr node
       \<and> node = JObject members
       \<and> map_of members ''type'' = Some (JString ''object'')
       \<and> map_of members ''additionalProperties'' = Some (JBool False))
   \<and> (\<exists>node members.
       get_type_info (AnnotatedClass [(''k'', Builtin TBool)] (Some [])) type_map = Inr node
       \<and> node = JObject members
       \<and> map_of members ''type'' = Some (JString ''object'')
       \<and> map_of members ''additionalProperties'' = Some (JBool False))"
proof -
  have d: "record_kind (Dataclass [Field ''x'' (Builtin TInt) MISSING MISSING])"
    and p: "record_kind (PydanticModel (Schema [(''p'', JObject [(''type'', JString ''string'')])] [] [])
                           [(''p'', Builtin TStr)])"
    and a: "record_kind (AnnotatedClass [(''k'', Builtin TBool)] (Some []))"
    by simp_all
  have rd: "get_type_info (Dataclass [Field ''x'' (Builtin TInt) MISSING MISSING]) type_map =
              Inr (object_node [(''x'', JObject [(''type'', JString ''integer'')])] [''x''])"
    by (simp add: type_map_def)
  have rp: "get_type_info (PydanticModel (Schema [(''p'', JObject [(''type'', JString ''string'')])] [] [])
                             [(''p'', Builtin TStr)]) type_map =
              Inr (object_node [(''p'', JObject [(''type'', JString ''string'')])] [])"
    by simp
  have ra: "get_type_info (AnnotatedClass [(''k'', Builtin TBool)] (Some [])) type_map =
              Inr (object_node [(''k'', JObject [(''type'', JString ''boolean'')])] [])"
    by (simp add: type_map_def)
  show ?thesis
    using record_nodes_closed [OF d rd] record_nodes_closed [OF p rp] record_nodes_closed [OF a ra]
      rd rp ra
    by simp
qed

text \<open>
  Claim C10. On the store of dict objects, started in any state: when an annotation
  resolves to the node \<open>n\<close>, a first call of \<^verbatim>\<open>get_type_info\<close> returns a dict that reads as
  \<open>n\<close>; after \<^verbatim>\<open>del param_info["additionalProperties"]\<close> on that dict a second call returns
  another dict, which reads as \<open>n\<close> again, while the first now reads as \<open>n\<close> without the key:
  the two calls give the same node, and the deletion does not reach the second. When the
  annotation raises, the call on the store raises the same exception. So the descriptor
  that \<^verbatim>\<open>function_to_json\<close> hands out, read from the store, is the one computed on values;
  and its \<^verbatim>\<open>properties\<close> hold, for the non-reserved parameters in declaration order,
  exactly the node that \<^verbatim>\<open>get_type_info\<close> returns for the parameter's annotation, with its
  \<^verbatim>\<open>additionalProperties\<close> member when it has one. (The parameter names of a signature are
  distinct.)
\<close>

theorem compiled_properties_unmodified:
  "(get_type_info a m = Inr n \<longrightarrow>
      (\<exists>r1 \<sigma>1 r2 \<sigma>3.
         get_type_info_h a m \<sigma> = (Inr r1, \<sigma>1)
         \<and> read \<sigma>1 (Ref r1) = n
         \<and> get_type_info_h a m (del_additionalProperties_h r1 \<sigma>1) = (Inr r2, \<sigma>3)
         \<and> r2 \<noteq> r1
         \<and> read \<sigma>3 (Ref r2) = n
         \<and> read \<sigma>3 (Ref r1) = del_additionalProperties n))
   \<and> (get_type_info a m = Inl e \<longrightarrow> fst (get_type_info_h a m \<sigma>) = Inl e)
   \<and> function_to_json_h f \<sigma> = function_to_json f
   \<and> (func_signature f = Some ps \<and> distinct (map param_name ps) \<and> function_to_json f = Inr d \<longrightarrow>
        (\<exists>properties required.
           d = JObject [(''type'', JString ''function''),
                        (''function'', JObject
                           [(''name'', JString (func_name f)),
                            (''description'',
                               JString (case func_doc f of None \<Rightarrow> [] | Some doc \<Rightarrow> doc)),
                            (''parameters'', JObject
                               [(''type'', JString ''object''),
                                (''properties'', JObject properties),
                                (''required'', JArray required)])])]
           \<and> map fst properties =
               map param_name (filter (\<lambda>p. param_name p \<noteq> ''context_variables'') ps)
           \<and> (\<forall>p\<in>set ps. param_name p \<noteq> ''context_variables'' \<longrightarrow>
                 (\<exists>n. get_type_info (param_annotation p) type_map = Inr n
                      \<and> map_of properties (param_name p) = Some n))))"
proof (intro conjI impI)
  assume "get_type_info a m = Inr n"
  from two_calls [OF this, of \<sigma>] obtain r1 \<tau>1 r2 \<tau>2 where
    "get_type_info_h a m \<sigma> = (Inr r1, \<sigma> @ \<tau>1)"
    "r1 < length (\<sigma> @ \<tau>1)"
    "read (\<sigma> @ \<tau>1) (Ref r1) = n"
    "get_type_info_h a m (del_additionalProperties_h r1 (\<sigma> @ \<tau>1)) =
       (Inr r2, del_additionalProperties_h r1 (\<sigma> @ \<tau>1) @ \<tau>2)"
    "length (\<sigma> @ \<tau>1) \<le> r2"
    "read (del_additionalProperties_h r1 (\<sigma> @ \<tau>1) @ \<tau>2) (Ref r2) = n"
    "read (del_additionalProperties_h r1 (\<sigma> @ \<tau>1) @ \<tau>2) (Ref r1) = del_additionalProperties n"
    by blast
  moreover from this have "r2 \<noteq> r1" by simp
  ultimately show "\<exists>r1 \<sigma>1 r2 \<sigma>3.
         get_type_info_h a m \<sigma> = (Inr r1, \<sigma>1)
         \<and> read \<sigma>1 (Ref r1) = n
         \<and> get_type_info_h a m (del_additionalProperties_h r1 \<sigma>1) = (Inr r2, \<sigma>3)
         \<and> r2 \<noteq> r1
         \<and> read \<sigma>3 (Ref r2) = n
         \<and> read \<sigma>3 (Ref r1) = del_additionalProperties n"
    by blast
next
  assume "get_type_info a m = Inl e"
  with resolver_on_store(1) [of \<sigma> a m] show "fst (get_type_info_h a m \<sigma>) = Inl e"
    by (simp add: agrees_def)
next
  show "function_to_json_h f \<sigma> = function_to_json f"
    by (rule function_to_json_on_store)
next
  assume a: "func_signature f = Some ps \<and> distinct (map param_name ps) \<and> function_to_json f = Inr d"
  then have sig: "func_signature f = Some ps" and d: "distinct (map param_name ps)"
    and ok: "function_to_json f = Inr d"
    by simp_all
  let ?qs = "filter (\<lambda>p. param_name p \<noteq> ''context_variables'') ps"
  from ok sig obtain r where r: "parameters_loop ps [] = Inr r"
    by (auto simp: function_to_json_def split: sum.splits)
  from parameters_loop_InrD [OF r] obtain ns where
    ns: "map (\<lambda>p. get_type_info (param_annotation p) type_map) ?qs = map Inr ns" ..
  then have len: "length ?qs = length ns"
    by (metis length_map)
  let ?props = "zip (map param_name ?qs) ns"
  have dq: "distinct (map param_name ?qs)"
    using d by (simp add: distinct_map_filter)
  from function_to_json_Inr [OF sig d ns] ok have
    deq: "d = descriptor (func_name f) (case func_doc f of None \<Rightarrow> [] | Some doc \<Rightarrow> doc)
            ?props (map param_name (filter (\<lambda>p. param_default p = EMPTY) ps))"
    by simp
  have keys: "map fst ?props = map param_name ?qs"
    using len by simp
  have vals: "\<exists>n. get_type_info (param_annotation p) type_map = Inr n
                  \<and> map_of ?props (param_name p) = Some n"
    if p: "p \<in> set ps" "param_name p \<noteq> ''context_variables''" for p
  proof -
    from p have "p \<in> set ?qs" by simp
    then obtain i where i: "i < length ?qs" "?qs ! i = p"
      unfolding in_set_conv_nth by blast
    have "map_of ?props (map param_name ?qs ! i) = Some (ns ! i)"
      using len i(1) dq by (intro map_of_zip_nth) simp_all
    then have look: "map_of ?props (param_name p) = Some (ns ! i)"
      using i by simp
    have "map (\<lambda>p. get_type_info (param_annotation p) type_map) ?qs ! i = map Inr ns ! i"
      using ns by simp
    then have "get_type_info (param_annotation p) type_map = Inr (ns ! i)"
      using i len by simp
    with look show ?thesis by simp
  qed
  from deq keys vals show "\<exists>properties required.
           d = JObject [(''type'', JString ''function''),
                        (''function'', JObject
                           [(''name'', JString (func_name f)),
                            (''description'',
                               JString (case func_doc f of None \<Rightarrow> [] | Some doc \<Rightarrow> doc)),
                            (''parameters'', JObject
                               [(''type'', JString ''object''),
                                (''properties'', JObject properties),
                                (''required'', JArray required)])])]
           \<and> map fst properties =
               map param_name (filter (\<lambda>p. param_name p \<noteq> ''context_variables'') ps)
           \<and> (\<forall>p\<in>set ps. param_name p \<noteq> ''context_variables'' \<longrightarrow>
                 (\<exists>n. get_type_info (param_annotation p) type_map = Inr n
                      \<and> map_of properties (param_name p) = Some n))"
    unfolding descriptor_def by blast
qed

theorem compiled_properties_unmodified_witness:
  "(\<exists>r1 \<sigma>1 r2 \<sigma>3.
      get_type_info_h (Generic ODict [Builtin TStr, Builtin TStr]) type_map [] = (Inr r1, \<sigma>1)
      \<and> read \<sigma>1 (Ref r1) =
          JObject [(''type'', JString ''object''),
                   (''additionalProperties'', JObject [(''type'', JString ''string'')])]
      \<and> get_type_info_h (Generic ODict [Builtin TStr, Builtin TStr]) type_map
            (del_additionalProperties_h r1 \<sigma>1) = (Inr r2, \<sigma>3)
      \<and> r2 \<noteq> r1
      \<and> read \<sigma>3 (Ref r2) =
          JObject [(''type'', JString ''object''),
                   (''additionalProperties'', JObject [(''type'', JString ''string'')])]
      \<and> read \<sigma>3 (Ref r1) = JObject [(''type'', JString ''object'')])
   \<and> function_to_json_h
        \<lparr>func_name = ''store'', func_doc = Some ''Stores.'',
         func_signature = Some
           [\<lparr>param_name = ''item'',
             param_annotation = Dataclass [Field ''x'' (Builtin TInt) MISSING MISSING],
             param_default = EMPTY\<rparr>,
            \<lparr>param_name = ''context_variables'', param_annotation = Builtin TDict,
             param_default = PyNone\<rparr>,
            \<lparr>param_name = ''tags'',
             param_annotation = Generic ODict [Builtin TStr, Builtin TStr],
             param_default = PyNone\<rparr>]\<rparr> [] =
      Inr (JObject
        [(''type'', JString ''function''),
         (''function'', JObject
            [(''name'', JString ''store''),
             (''description'', JString ''Stores.''),
             (''parameters'', JObject
                [(''type'', JString ''object''),
                 (''properties'', JObject
                    [(''item'', JObject
                        [(''type'', JString ''object''),
                         (''properties'', JObject [(''x'', JObject [(''type'', JString ''integer'')])]),
                         (''required'', JArray [JString ''x'']),
                         (''additionalProperties'', JBool False)]),
                     (''tags'', JObject
                        [(''type'', JString ''object''),
                         (''additionalProperties'', JObject [(''type'', JString ''string'')])])]),
                 (''required'', JArray [JString ''item''])])])])
   \<and> (\<exists>properties.
        map fst properties = [''item'', ''tags'']
        \<and> Inr (the (map_of properties ''item'')) =
            get_type_info (Dataclass [Field ''x'' (Builtin TInt) MISSING MISSING]) type_map
        \<and> Inr (the (map_of properties ''tags'')) =
            get_type_info (Generic ODict [Builtin TStr, Builtin TStr]) type_map)"
proof -
  let ?item = "\<lparr>param_name = ''item'',
                 param_annotation = Dataclass [Field ''x'' (Builtin TInt) MISSING MISSING],
                 param_default = EMPTY\<rparr>"
  let ?ctx = "\<lparr>param_name = ''context_variables'', param_annotation = Builtin TDict,
                param_default = PyNone\<rparr>"
  let ?tags = "\<lparr>param_name = ''tags'',
                 param_annotation = Generic ODict [Builtin TStr, Builtin TStr],
                 param_default = PyNone\<rparr>"
  let ?f = "\<lparr>func_name = ''store'', func_doc = Some ''Stores.'',
              func_signature = Some [?item, ?ctx, ?tags]\<rparr>"
  let ?n = "JObject [(''type'', JString ''object''),
                     (''additionalProperties'', JObject [(''type'', JString ''string'')])]"
  let ?d = "JObject
        [(''type'', JString ''function''),
         (''function'', JObject
            [(''name'', JString ''store''),
             (''description'', JString ''Stores.''),
             (''parameters'', JObject
                [(''type'', JString ''object''),
                 (''properties'', JObject
                    [(''item'', JObject
                        [(''type'', JString ''object''),
                         (''properties'', JObject [(''x'', JObject [(''type'', JString ''integer'')])]),
                         (''required'', JArray [JString ''x'']),
                         (''additionalProperties'', JBool False)]),
                     (''tags'', ?n)]),
                 (''required'', JArray [JString ''item''])])])]"
  note T = compiled_properties_unmodified
    [of "Generic ODict [Builtin TStr, Builtin TStr]" type_map ?n "[]" _ ?f "[?item, ?ctx, ?tags]" ?d]
  have n: "get_type_info (Generic ODict [Builtin TStr, Builtin TStr]) type_map = Inr ?n"
    by (simp add: type_map_def)
  have sig: "func_signature ?f = Some [?item, ?ctx, ?tags]" by simp
  have dist: "distinct (map param_name [?item, ?ctx, ?tags])" by simp
  have ok: "function_to_json ?f = Inr ?d"
    by (simp add: function_to_json_def descriptor_def type_map_def object_node_def)
  from T n have c1: "\<exists>r1 \<sigma>1 r2 \<sigma>3.
      get_type_info_h (Generic ODict [Builtin TStr, Builtin TStr]) type_map [] = (Inr r1, \<sigma>1)
      \<and> read \<sigma>1 (Ref r1) = ?n
      \<and> get_type_info_h (Generic ODict [Builtin TStr, Builtin TStr]) type_map
            (del_additionalProperties_h r1 \<sigma>1) = (Inr r2, \<sigma>3)
      \<and> r2 \<noteq> r1
      \<and> read \<sigma>3 (Ref r2) = ?n
      \<and> read \<sigma>3 (Ref r1) = del_additionalProperties ?n"
    by blast
  from T ok have c3: "function_to_json_h ?f [] = Inr ?d"
    by simp
  from T sig dist ok obtain properties required where
    keys: "map fst properties =
          map param_name (filter (\<lambda>p. param_name p \<noteq> ''context_variables'') [?item, ?ctx, ?tags])"
    and vals: "\<forall>p\<in>set [?item, ?ctx, ?tags]. param_name p \<noteq> ''context_variables'' \<longrightarrow>
            (\<exists>n. get_type_info (param_annotation p) type_map = Inr n
                 \<and> map_of properties (param_name p) = Some n)"
    by blast
  from keys have k: "map fst properties = [''item'', ''tags'']"
    by simp
  from vals have "\<exists>n. get_type_info (param_annotation ?item) type_map = Inr n
                    \<and> map_of properties (param_name ?item) = Some n"
    by simp
  then have i: "Inr (the (map_of properties ''item'')) =
            get_type_info (Dataclass [Field ''x'' (Builtin TInt) MISSING MISSING]) type_map"
    by auto
  from vals have "\<exists>n. get_type_info (param_annotation ?tags) type_map = Inr n
                    \<and> map_of properties (param_name ?tags) = Some n"
    by simp
  then have t: "Inr (the (map_of properties ''tags'')) =
            get_type_info (Generic ODict [Builtin TStr, Builtin TStr]) type_map"
    by auto
  from k i t have c4: "\<exists>properties.
        map fst properties = [''item'', ''tags'']
        \<and> Inr (the (map_of properties ''item'')) =
            get_type_info (Dataclass [Field ''x'' (Builtin TInt) MISSING MISSING]) type_map
        \<and> Inr (the (map_of properties ''tags'')) =
            get_type_info (Generic ODict [Builtin TStr, Builtin TStr]) type_map"
    by (intro exI [of _ properties] conjI) assumption+
  from c1 c3 c4 show ?thesis by (simp del: get_type_info.simps)
qed

end
